theory Spec2Isabelle
  imports Complex_Main
begin

section \<open>EducatorAI: the generation service and its request handler\<close>

text \<open>
  A shallow embedding of \<^verbatim>\<open>models/ai_service.py\<close>, \<^verbatim>\<open>api/models.py\<close>,
  \<^verbatim>\<open>api/routes.py\<close> and \<^verbatim>\<open>config.py\<close>.

  Conventions. A Python \<^verbatim>\<open>str\<close> is a \<open>string\<close>, one \<open>char\<close> per code point (code
  points below 256). A Python \<^verbatim>\<open>float\<close> is a \<open>real\<close>: the code only compares floats,
  tests them for zero and passes them on, it never computes with them. A Python
  \<^verbatim>\<open>int\<close> is an \<open>int\<close>. A function that can raise returns a sum, with \<open>Inl\<close> the
  exception; a method that mutates \<^verbatim>\<open>self\<close> takes the object and returns it updated.
  Python names that start with an underscore lose it (\<^verbatim>\<open>_load_model\<close> is
  \<open>load_model\<close>), and the attribute \<^verbatim>\<open>_ready\<close> is the field \<open>p_ready\<close>.
\<close>

subsection \<open>Exceptions\<close>

text \<open>
  The exceptions of class \<^verbatim>\<open>Exception\<close> that the modelled code raises or lets through,
  each with the text \<^verbatim>\<open>str(e)\<close> gives. The text of a \<open>KeyError\<close> is the \<^verbatim>\<open>repr\<close> of the
  key (a string key in quotes), and that is what it holds. \<open>ValidationError\<close> is the one a model's constructor raises; it holds
  the names of the required fields the call left out (the text pydantic prints also
  holds their number, the input and a link, which the model leaves out).
  \<open>LibraryError\<close> is whatever the model library raises (out of memory, a tokenizer
  error, ...).
\<close>

datatype py_exception =
    RuntimeError string
  | AttributeError string
  | TypeError string
  | IndexError string
  | KeyError string
  | ValidationError "string list"
  | LibraryError string

fun str_of :: "py_exception \<Rightarrow> string" where
  "str_of (RuntimeError m) = m"
| "str_of (AttributeError m) = m"
| "str_of (TypeError m) = m"
| "str_of (IndexError m) = m"
| "str_of (KeyError r) = r"
| "str_of (ValidationError fields) =
     ''validation errors for GenerateResponse'' @
     concat (map (\<lambda>f. [CHR 0x0A] @ f @ [CHR 0x0A] @ ''  Field required'') fields)"
| "str_of (LibraryError m) = m"

text \<open>The text of the \<^verbatim>\<open>AttributeError\<close> for an attribute an object does not have.\<close>

definition attribute_missing :: "string \<Rightarrow> string \<Rightarrow> string" where
  "attribute_missing cls name =
     [CHR 0x27] @ cls @ [CHR 0x27] @ '' object has no attribute '' @
     [CHR 0x27] @ name @ [CHR 0x27]"

subsection \<open>Strings\<close>

text \<open>
  \<^verbatim>\<open>str.strip()\<close> removes leading and trailing whitespace, the characters for which
  \<^verbatim>\<open>str.isspace\<close> holds: below 256 these are 9 to 13, 28 to 32, 133 and 160.
\<close>

definition isspace :: "char \<Rightarrow> bool" where
  "isspace c =
     (let n = (of_char c :: nat)
      in (9 \<le> n \<and> n \<le> 13) \<or> (28 \<le> n \<and> n \<le> 32) \<or> n = 133 \<or> n = 160)"

definition strip :: "string \<Rightarrow> string" where
  "strip s = rev (dropWhile isspace (rev (dropWhile isspace s)))"

definition nl :: string where
  "nl = [CHR 0x0A]"

subsection \<open>Configuration (config.py)\<close>

record Settings =
  model_name :: string
  cfg_max_length :: int
  cfg_temperature :: real
  cfg_top_p :: real

text \<open>The field defaults of class \<^verbatim>\<open>Settings\<close>; \<^verbatim>\<open>settings = Settings()\<close>.\<close>

definition settings :: Settings where
  "settings =
     \<lparr> model_name = ''ibm-granite/granite-3.3-2b-instruct'',
       cfg_max_length = 512,
       cfg_temperature = 0.7,
       cfg_top_p = 0.9 \<rparr>"

subsection \<open>The generation resource\<close>

text \<open>
  An instance attribute is absent after \<^verbatim>\<open>del\<close> (reading it raises
  \<^verbatim>\<open>AttributeError\<close>), holds \<^verbatim>\<open>None\<close>, or holds an object.
\<close>

datatype 'a attr = Deleted | PyNone | Obj 'a

datatype Model = Model string

record Tokenizer =
  eos_token_id :: "int option"

text \<open>The keyword arguments of one call of the text-generation pipeline.\<close>

record pipeline_call =
  call_prompt :: string
  call_max_length :: int
  call_temperature :: real
  call_top_p :: real
  call_do_sample :: bool
  call_pad_token_id :: "int option"
  call_num_return_sequences :: int
  call_return_full_text :: bool

text \<open>
  The pipeline is a callable of the library: it raises, or returns a list of
  dictionaries (association lists).
\<close>

type_synonym pipeline_output = "(string \<times> string) list list"

type_synonym Pipeline = "pipeline_call \<Rightarrow> py_exception + pipeline_output"

text \<open>
  Class \<^verbatim>\<open>AIService\<close>. \<open>executor_shutdown\<close> is the state of the
  \<^verbatim>\<open>ThreadPoolExecutor\<close>; \<open>calls\<close> records, in order, every call made to the pipeline
  (the only effect on the generation resource).
\<close>

record AIService =
  model :: "Model attr"
  tokenizer :: "Tokenizer attr"
  pipeline :: "Pipeline attr"
  device :: "string option"
  executor_shutdown :: bool
  p_ready :: bool
  calls :: "pipeline_call list"

text \<open>\<^verbatim>\<open>AIService.__init__\<close>\<close>

definition AIService_init :: AIService where
  "AIService_init =
     \<lparr> model = PyNone, tokenizer = PyNone, pipeline = PyNone, device = None,
       executor_shutdown = False, p_ready = False, calls = [] \<rparr>"

text \<open>
  \<^verbatim>\<open>loop.run_in_executor(self.executor, f)\<close> submits to the pool; a pool that was shut
  down refuses the submission.
\<close>

definition run_in_executor :: "AIService \<Rightarrow> py_exception + unit" where
  "run_in_executor s =
     (if executor_shutdown s
      then Inl (RuntimeError ''cannot schedule new futures after shutdown'')
      else Inr ())"

text \<open>
  \<^verbatim>\<open>is_ready\<close>: \<^verbatim>\<open>self._ready and self.pipeline is not None\<close>. The right operand is
  read only when \<^verbatim>\<open>_ready\<close> is true.
\<close>

definition is_ready :: "AIService \<Rightarrow> py_exception + bool" where
  "is_ready s =
     (if \<not> p_ready s then Inr False
      else case pipeline s of
             Deleted \<Rightarrow> Inl (AttributeError (attribute_missing ''AIService'' ''pipeline''))
           | PyNone \<Rightarrow> Inr False
           | Obj _ \<Rightarrow> Inr True)"

text \<open>\<^verbatim>\<open>_prepare_prompt\<close>; \<^verbatim>\<open>if context:\<close> is false for \<^verbatim>\<open>None\<close> and for the empty string.\<close>

definition system_prompt :: string where
  "system_prompt =
     ''You are an expert educator and content creator. Your task is to generate high-quality educational content that is:'' @ nl @
     ''- Clear and easy to understand'' @ nl @
     ''- Accurate and factual'' @ nl @
     ''- Engaging and informative'' @ nl @
     ''- Appropriate for the target audience'' @ nl @
     ''- Well-structured with examples when helpful'' @ nl @
     nl @
     ''Please provide educational content based on the following request:''"

definition prepare_prompt :: "string \<Rightarrow> string option \<Rightarrow> string" where
  "prepare_prompt prompt context =
     (case context of
        None \<Rightarrow> system_prompt @ nl @ nl @ ''Request: '' @ prompt @ nl @ nl @ ''Response:''
      | Some c \<Rightarrow>
          if c = [] then system_prompt @ nl @ nl @ ''Request: '' @ prompt @ nl @ nl @ ''Response:''
          else system_prompt @ nl @ nl @ ''Context: '' @ c @ nl @ nl @
               ''Request: '' @ prompt @ nl @ nl @ ''Response:'')"

text \<open>
  \<^verbatim>\<open>_generate_text_sync\<close>, the body under \<^verbatim>\<open>with self._lock\<close>. The callee
  \<^verbatim>\<open>self.pipeline\<close> is read first, then the arguments (with
  \<^verbatim>\<open>self.tokenizer.eos_token_id\<close>), then the call is made; every exception is logged
  and raised again.
\<close>

definition generate_text_sync ::
  "AIService \<Rightarrow> string \<Rightarrow> int \<Rightarrow> real \<Rightarrow> real \<Rightarrow> (py_exception + string) \<times> AIService" where
  "generate_text_sync s prompt max_length temperature top_p =
     (case pipeline s of
        Deleted \<Rightarrow> (Inl (AttributeError (attribute_missing ''AIService'' ''pipeline'')), s)
      | p \<Rightarrow>
         (case tokenizer s of
            Deleted \<Rightarrow> (Inl (AttributeError (attribute_missing ''AIService'' ''tokenizer'')), s)
          | PyNone \<Rightarrow> (Inl (AttributeError (attribute_missing ''NoneType'' ''eos_token_id'')), s)
          | Obj tok \<Rightarrow>
             (case p of
                Obj f \<Rightarrow>
                  (let c = \<lparr> call_prompt = prompt, call_max_length = max_length,
                             call_temperature = temperature, call_top_p = top_p,
                             call_do_sample = True, call_pad_token_id = eos_token_id tok,
                             call_num_return_sequences = 1, call_return_full_text = False \<rparr>;
                       s' = s\<lparr>calls := calls s @ [c]\<rparr>
                   in case f c of
                        Inl e \<Rightarrow> (Inl e, s')
                      | Inr outputs \<Rightarrow>
                         (case outputs of
                            [] \<Rightarrow> (Inl (IndexError ''list index out of range''), s')
                          | d # _ \<Rightarrow>
                             (case map_of d ''generated_text'' of
                                None \<Rightarrow> (Inl (KeyError ([CHR 0x27] @ ''generated_text'' @ [CHR 0x27])), s')
                              | Some generated_text \<Rightarrow> (Inr (strip generated_text), s'))))
              | _ \<Rightarrow> (Inl (TypeError ([CHR 0x27] @ ''NoneType'' @ [CHR 0x27] @ '' object is not callable'')), s))))"

text \<open>
  Python's \<^verbatim>\<open>v or default\<close> on an optional number: \<^verbatim>\<open>None\<close> and zero are false.
\<close>

definition or_int :: "int option \<Rightarrow> int \<Rightarrow> int" where
  "or_int v d = (case v of None \<Rightarrow> d | Some x \<Rightarrow> if x = 0 then d else x)"

definition or_float :: "real option \<Rightarrow> real \<Rightarrow> real" where
  "or_float v d = (case v of None \<Rightarrow> d | Some x \<Rightarrow> if x = 0 then d else x)"

text \<open>The dictionary \<^verbatim>\<open>generate_text\<close> returns.\<close>

record gen_params =
  p_max_length :: int
  p_temperature :: real
  p_top_p :: real

record gen_result =
  res_generated_text :: string
  res_prompt :: string
  res_context :: "string option"
  res_parameters :: gen_params

text \<open>
  \<^verbatim>\<open>AIService.generate_text\<close>. The readiness test stands before the \<^verbatim>\<open>try\<close>; the
  handler of the \<^verbatim>\<open>try\<close> logs and raises again.
\<close>

definition generate_text ::
  "AIService \<Rightarrow> string \<Rightarrow> int option \<Rightarrow> real option \<Rightarrow> real option \<Rightarrow> string option
     \<Rightarrow> (py_exception + gen_result) \<times> AIService" where
  "generate_text s prompt max_length temperature top_p context =
     (case is_ready s of
        Inl e \<Rightarrow> (Inl e, s)
      | Inr ready \<Rightarrow>
          if \<not> ready then (Inl (RuntimeError ''AI service is not ready''), s)
          else
            (let full_prompt = prepare_prompt prompt context;
                 max_length' = or_int max_length (cfg_max_length settings);
                 temperature' = or_float temperature (cfg_temperature settings);
                 top_p' = or_float top_p (cfg_top_p settings)
             in case run_in_executor s of
                  Inl e \<Rightarrow> (Inl e, s)
                | Inr _ \<Rightarrow>
                   (case generate_text_sync s full_prompt max_length' temperature' top_p' of
                      (Inl e, s') \<Rightarrow> (Inl e, s')
                    | (Inr result, s') \<Rightarrow>
                        (Inr \<lparr> res_generated_text = result, res_prompt = prompt,
                               res_context = context,
                               res_parameters =
                                 \<lparr> p_max_length = max_length', p_temperature = temperature',
                                   p_top_p = top_p' \<rparr> \<rparr>, s'))))"

text \<open>
  \<^verbatim>\<open>_load_model\<close>. The three library constructors are parameters: each raises or
  returns its object (the tokenizer for a model name, the model for a name and a
  device, the pipeline for a model, a tokenizer and a device).
\<close>

record hub =
  tokenizer_from_pretrained :: "string \<Rightarrow> py_exception + Tokenizer"
  model_from_pretrained :: "string \<Rightarrow> string \<Rightarrow> py_exception + Model"
  make_pipeline :: "Model attr \<Rightarrow> Tokenizer attr \<Rightarrow> string \<Rightarrow> py_exception + Pipeline"

definition device_name :: "AIService \<Rightarrow> string" where
  "device_name s = (case device s of None \<Rightarrow> ''None'' | Some d \<Rightarrow> d)"

definition load_model :: "hub \<Rightarrow> AIService \<Rightarrow> (py_exception + unit) \<times> AIService" where
  "load_model h s =
     (case tokenizer_from_pretrained h (model_name settings) of
        Inl e \<Rightarrow> (Inl e, s)
      | Inr tok \<Rightarrow>
         (let s1 = s\<lparr>tokenizer := Obj tok\<rparr>
          in case model_from_pretrained h (model_name settings) (device_name s1) of
               Inl e \<Rightarrow> (Inl e, s1)
             | Inr m \<Rightarrow>
                (let s2 = s1\<lparr>model := Obj m\<rparr>
                 in case make_pipeline h (model s2) (tokenizer s2) (device_name s2) of
                      Inl e \<Rightarrow> (Inl e, s2)
                    | Inr p \<Rightarrow> (Inr (), s2\<lparr>pipeline := Obj p\<rparr>))))"

text \<open>
  \<^verbatim>\<open>initialize\<close>; \<open>cuda\<close> is \<^verbatim>\<open>torch.cuda.is_available()\<close>. The handler logs and
  raises again, so \<^verbatim>\<open>_ready\<close> is set only when nothing was raised.
\<close>

definition initialize :: "hub \<Rightarrow> bool \<Rightarrow> AIService \<Rightarrow> (py_exception + unit) \<times> AIService" where
  "initialize h cuda s =
     (let s1 = s\<lparr>device := Some (if cuda then ''cuda'' else ''cpu'')\<rparr>
      in case run_in_executor s1 of
           Inl e \<Rightarrow> (Inl e, s1)
         | Inr _ \<Rightarrow>
            (case load_model h s1 of
               (Inl e, s2) \<Rightarrow> (Inl e, s2)
             | (Inr _, s2) \<Rightarrow> (Inr (), s2\<lparr>p_ready := True\<rparr>)))"

text \<open>
  \<^verbatim>\<open>cleanup\<close>. \<^verbatim>\<open>if self.model: del self.model\<close> reads the attribute (which raises
  when an earlier \<^verbatim>\<open>del\<close> removed it), skips \<^verbatim>\<open>None\<close> and removes an object; loaded
  objects are true. The executor is an object, so it is always shut down. Emptying
  the CUDA cache changes nothing of the service.
\<close>

definition del_if_set :: "string \<Rightarrow> 'a attr \<Rightarrow> py_exception + 'a attr" where
  "del_if_set name a =
     (case a of
        Deleted \<Rightarrow> Inl (AttributeError (attribute_missing ''AIService'' name))
      | PyNone \<Rightarrow> Inr PyNone
      | Obj _ \<Rightarrow> Inr Deleted)"

definition cleanup :: "bool \<Rightarrow> AIService \<Rightarrow> (py_exception + unit) \<times> AIService" where
  "cleanup cuda s =
     (let s0 = s\<lparr>executor_shutdown := True\<rparr>
      in case del_if_set ''model'' (model s0) of
           Inl e \<Rightarrow> (Inl e, s0)
         | Inr m \<Rightarrow>
            (let s1 = s0\<lparr>model := m\<rparr>
             in case del_if_set ''tokenizer'' (tokenizer s1) of
                  Inl e \<Rightarrow> (Inl e, s1)
                | Inr t \<Rightarrow>
                   (let s2 = s1\<lparr>tokenizer := t\<rparr>
                    in case del_if_set ''pipeline'' (pipeline s2) of
                         Inl e \<Rightarrow> (Inl e, s2)
                       | Inr p \<Rightarrow> (Inr (), s2\<lparr>pipeline := p, p_ready := False\<rparr>))))"

subsection \<open>Request and response models (api/models.py)\<close>

datatype ContentType = EXPLANATION | SUMMARY | QUIZ | LESSON | EXAMPLE | DEFINITION

fun ContentType_value :: "ContentType \<Rightarrow> string" where
  "ContentType_value EXPLANATION = ''explanation''"
| "ContentType_value SUMMARY = ''summary''"
| "ContentType_value QUIZ = ''quiz''"
| "ContentType_value LESSON = ''lesson''"
| "ContentType_value EXAMPLE = ''example''"
| "ContentType_value DEFINITION = ''definition''"

definition ContentType_members :: "ContentType list" where
  "ContentType_members = [EXPLANATION, SUMMARY, QUIZ, LESSON, EXAMPLE, DEFINITION]"

text \<open>\<^verbatim>\<open>ContentType(v)\<close>: the member with that value, if any.\<close>

definition ContentType_of_value :: "string \<Rightarrow> ContentType option" where
  "ContentType_of_value v = find (\<lambda>c. ContentType_value c = v) ContentType_members"

text \<open>
  The body of a request as the model's constructor receives it. \<open>Omitted\<close> is a key
  the body does not have. A body without a prompt, or with a value of the wrong
  JSON type, fails the type check and is not modelled.
\<close>

datatype 'a given = Omitted | Given 'a

record request_body =
  body_prompt :: string
  body_content_type :: "string option given"
  body_context :: "string option"
  body_max_length :: "int option"
  body_temperature :: "real option"
  body_top_p :: "real option"

record GenerateRequest =
  req_prompt :: string
  req_content_type :: "ContentType option"
  req_context :: "string option"
  req_max_length :: "int option"
  req_temperature :: "real option"
  req_top_p :: "real option"

text \<open>The validators \<^verbatim>\<open>validate_prompt\<close> and \<^verbatim>\<open>validate_context\<close>.\<close>

definition validate_prompt :: "string \<Rightarrow> string + string" where
  "validate_prompt v = (if strip v = [] then Inl ''Prompt cannot be empty'' else Inr (strip v))"

definition validate_context :: "string option \<Rightarrow> string option" where
  "validate_context v = (case v of Some c \<Rightarrow> Some (strip c) | None \<Rightarrow> None)"

text \<open>
  Each field: the constraints of its \<^verbatim>\<open>Field(...)\<close> on the value received, then its
  validator. The result is the error message or the stored value.
\<close>

definition prompt_field :: "string \<Rightarrow> string + string" where
  "prompt_field v =
     (if length v < 1 then Inl ''String should have at least 1 character''
      else if length v > 1000 then Inl ''String should have at most 1000 characters''
      else validate_prompt v)"

definition content_type_field :: "string option given \<Rightarrow> string + ContentType option" where
  "content_type_field v =
     (case v of
        Omitted \<Rightarrow> Inr (Some EXPLANATION)
      | Given None \<Rightarrow> Inr None
      | Given (Some x) \<Rightarrow>
         (case ContentType_of_value x of
            None \<Rightarrow> Inl ''Input should be explanation, summary, quiz, lesson, example or definition''
          | Some c \<Rightarrow> Inr (Some c)))"

definition context_field :: "string option \<Rightarrow> string + string option" where
  "context_field v =
     (case v of
        None \<Rightarrow> Inr None
      | Some c \<Rightarrow>
         if length c > 2000 then Inl ''String should have at most 2000 characters''
         else Inr (validate_context (Some c)))"

definition max_length_field :: "int option \<Rightarrow> string + int option" where
  "max_length_field v =
     (case v of
        None \<Rightarrow> Inr None
      | Some n \<Rightarrow>
         if \<not> n \<ge> 50 then Inl ''Input should be greater than or equal to 50''
         else if \<not> n \<le> 1000 then Inl ''Input should be less than or equal to 1000''
         else Inr (Some n))"

definition temperature_field :: "real option \<Rightarrow> string + real option" where
  "temperature_field v =
     (case v of
        None \<Rightarrow> Inr None
      | Some x \<Rightarrow>
         if \<not> x \<ge> 0.1 then Inl ''Input should be greater than or equal to 0.1''
         else if \<not> x \<le> 2.0 then Inl ''Input should be less than or equal to 2''
         else Inr (Some x))"

definition top_p_field :: "real option \<Rightarrow> string + real option" where
  "top_p_field v =
     (case v of
        None \<Rightarrow> Inr None
      | Some x \<Rightarrow>
         if \<not> x \<ge> 0.1 then Inl ''Input should be greater than or equal to 0.1''
         else if \<not> x \<le> 1.0 then Inl ''Input should be less than or equal to 1''
         else Inr (Some x))"

text \<open>
  Constructing a \<^verbatim>\<open>GenerateRequest\<close>: every field is checked, the errors are
  collected with the field's name, and the request exists only when there is none.
\<close>

definition field_errors :: "string \<Rightarrow> string + 'a \<Rightarrow> (string \<times> string) list" where
  "field_errors name r = (case r of Inl msg \<Rightarrow> [(name, msg)] | Inr _ \<Rightarrow> [])"

definition GenerateRequest_new :: "request_body \<Rightarrow> (string \<times> string) list + GenerateRequest" where
  "GenerateRequest_new b =
     (case (prompt_field (body_prompt b), content_type_field (body_content_type b),
            context_field (body_context b), max_length_field (body_max_length b),
            temperature_field (body_temperature b), top_p_field (body_top_p b)) of
        (Inr p, Inr ct, Inr cx, Inr ml, Inr t, Inr tp) \<Rightarrow>
          Inr \<lparr> req_prompt = p, req_content_type = ct, req_context = cx,
                req_max_length = ml, req_temperature = t, req_top_p = tp \<rparr>
      | (p, ct, cx, ml, t, tp) \<Rightarrow>
          Inl (field_errors ''prompt'' p @ field_errors ''content_type'' ct @
               field_errors ''context'' cx @ field_errors ''max_length'' ml @
               field_errors ''temperature'' t @ field_errors ''top_p'' tp))"

text \<open>
  Class \<^verbatim>\<open>GenerateResponse\<close>. Each of its fields is declared
  \<^verbatim>\<open>name: T = Field(description=...)\<close>, with no default. \<^verbatim>\<open>config.py\<close> imports
  \<^verbatim>\<open>pydantic_settings\<close>, which exists for pydantic 2 only, and there a field without
  a default is required, also when its type is \<^verbatim>\<open>Optional\<close>: a constructor call that
  does not name it raises \<^verbatim>\<open>ValidationError\<close>.
\<close>

record GenerateResponse =
  resp_success :: bool
  resp_generated_text :: "string option"
  resp_prompt :: "string option"
  resp_context :: "string option"
  resp_content_type :: "ContentType option"
  resp_parameters :: "gen_params option"
  resp_error :: "string option"
  resp_processing_time :: "real option"

text \<open>The keyword arguments of a constructor call: each field is named or left out.\<close>

record response_args =
  arg_success :: "bool given"
  arg_generated_text :: "string option given"
  arg_prompt :: "string option given"
  arg_context :: "string option given"
  arg_content_type :: "ContentType option given"
  arg_parameters :: "gen_params option given"
  arg_error :: "string option given"
  arg_processing_time :: "real option given"

definition missing :: "string \<Rightarrow> 'a given \<Rightarrow> string list" where
  "missing name v = (case v of Omitted \<Rightarrow> [name] | Given _ \<Rightarrow> [])"

definition GenerateResponse_new :: "response_args \<Rightarrow> py_exception + GenerateResponse" where
  "GenerateResponse_new a =
     (case (arg_success a, arg_generated_text a, arg_prompt a, arg_context a,
            arg_content_type a, arg_parameters a, arg_error a, arg_processing_time a) of
        (Given s, Given g, Given p, Given cx, Given ct, Given ps, Given e, Given t) \<Rightarrow>
          Inr \<lparr> resp_success = s, resp_generated_text = g, resp_prompt = p,
                resp_context = cx, resp_content_type = ct, resp_parameters = ps,
                resp_error = e, resp_processing_time = t \<rparr>
      | _ \<Rightarrow>
          Inl (ValidationError
                (missing ''success'' (arg_success a) @
                 missing ''generated_text'' (arg_generated_text a) @
                 missing ''prompt'' (arg_prompt a) @ missing ''context'' (arg_context a) @
                 missing ''content_type'' (arg_content_type a) @
                 missing ''parameters'' (arg_parameters a) @ missing ''error'' (arg_error a) @
                 missing ''processing_time'' (arg_processing_time a))))"

subsection \<open>The request handler (api/routes.py)\<close>

text \<open>
  The argument of \<^verbatim>\<open>_enhance_prompt_by_type\<close> is not checked by Python: it is a
  member of \<^verbatim>\<open>ContentType\<close>, \<^verbatim>\<open>None\<close> (which the request model allows) or a plain
  string. \<^verbatim>\<open>ContentType\<close> derives from \<^verbatim>\<open>str\<close>, so a member and its value are equal
  as dictionary keys.
\<close>

datatype py_key = Member ContentType | Str string | NoneKey

fun key_eq :: "ContentType \<Rightarrow> py_key \<Rightarrow> bool" where
  "key_eq c (Member c') = (c = c')"
| "key_eq c (Str v) = (ContentType_value c = v)"
| "key_eq c NoneKey = False"

definition type_instructions :: "(ContentType \<times> string) list" where
  "type_instructions =
     [(EXPLANATION, ''Provide a clear, detailed explanation of the following topic. Include examples and break down complex concepts into understandable parts:''),
      (SUMMARY, ''Create a concise summary of the following topic, highlighting the key points and main ideas:''),
      (QUIZ, ''Generate quiz questions and answers about the following topic. Include multiple choice, true/false, and short answer questions:''),
      (LESSON, ''Create a structured lesson plan for teaching the following topic. Include objectives, activities, and assessment methods:''),
      (EXAMPLE, ''Provide practical examples and real-world applications of the following concept:''),
      (DEFINITION, ''Provide a clear definition and explanation of the following term or concept, including its significance and context:'')]"

text \<open>\<^verbatim>\<open>repr\<close> of a key, the text of the \<^verbatim>\<open>KeyError\<close> for it.\<close>

fun ContentType_name :: "ContentType \<Rightarrow> string" where
  "ContentType_name EXPLANATION = ''EXPLANATION''"
| "ContentType_name SUMMARY = ''SUMMARY''"
| "ContentType_name QUIZ = ''QUIZ''"
| "ContentType_name LESSON = ''LESSON''"
| "ContentType_name EXAMPLE = ''EXAMPLE''"
| "ContentType_name DEFINITION = ''DEFINITION''"

fun key_repr :: "py_key \<Rightarrow> string" where
  "key_repr (Member c) =
     ''<ContentType.'' @ ContentType_name c @ '': '' @
     [CHR 0x27] @ ContentType_value c @ [CHR 0x27] @ ''>''"
| "key_repr (Str v) = [CHR 0x27] @ v @ [CHR 0x27]"
| "key_repr NoneKey = ''None''"

text \<open>\<^verbatim>\<open>d.get(key, default)\<close> and \<^verbatim>\<open>d[key]\<close> on a dictionary keyed by members.\<close>

definition dict_get :: "(ContentType \<times> string) list \<Rightarrow> py_key \<Rightarrow> string \<Rightarrow> string" where
  "dict_get d k dflt = (case find (\<lambda>(c, _). key_eq c k) d of Some (_, v) \<Rightarrow> v | None \<Rightarrow> dflt)"

definition dict_item :: "(ContentType \<times> string) list \<Rightarrow> py_key \<Rightarrow> py_exception + string" where
  "dict_item d k =
     (case find (\<lambda>(c, _). key_eq c k) d of
        Some (_, v) \<Rightarrow> Inr v
      | None \<Rightarrow> Inl (KeyError (key_repr k)))"

text \<open>
  \<^verbatim>\<open>_enhance_prompt_by_type\<close>. The default
  \<^verbatim>\<open>type_instructions[ContentType.EXPLANATION]\<close> is evaluated before \<^verbatim>\<open>get\<close> is
  called.
\<close>

definition enhance_prompt_by_type :: "string \<Rightarrow> py_key \<Rightarrow> py_exception + string" where
  "enhance_prompt_by_type prompt content_type =
     (case dict_item type_instructions (Member EXPLANATION) of
        Inl e \<Rightarrow> Inl e
      | Inr dflt \<Rightarrow> Inr (dict_get type_instructions content_type dflt @ nl @ nl @ prompt))"

definition key_of :: "ContentType option \<Rightarrow> py_key" where
  "key_of c = (case c of None \<Rightarrow> NoneKey | Some m \<Rightarrow> Member m)"

text \<open>
  What leaves \<^verbatim>\<open>generate_content\<close> by \<^verbatim>\<open>raise\<close>: an \<^verbatim>\<open>HTTPException\<close> (status code and
  detail), or another exception.
\<close>

datatype raised = HTTPException nat string | Exception py_exception

text \<open>
  The \<^verbatim>\<open>try\<close> block of \<^verbatim>\<open>generate_content\<close>. \<open>start_time\<close> is the reading of
  \<^verbatim>\<open>time.time()\<close> at the start and \<open>now\<close> the one after \<^verbatim>\<open>generate_text\<close> returned.
  The call that builds the success response names every field but \<^verbatim>\<open>error\<close>.
\<close>

definition generate_content_try ::
  "real \<Rightarrow> real \<Rightarrow> GenerateRequest \<Rightarrow> AIService \<Rightarrow> (raised + GenerateResponse) \<times> AIService" where
  "generate_content_try start_time now request ai_service =
     (case is_ready ai_service of
        Inl e \<Rightarrow> (Inl (Exception e), ai_service)
      | Inr ready \<Rightarrow>
          if \<not> ready
          then (Inl (HTTPException 503 ''AI model is not ready. Please try again later.''), ai_service)
          else
            (case enhance_prompt_by_type (req_prompt request) (key_of (req_content_type request)) of
               Inl e \<Rightarrow> (Inl (Exception e), ai_service)
             | Inr enhanced_prompt \<Rightarrow>
                (case generate_text ai_service enhanced_prompt (req_max_length request)
                        (req_temperature request) (req_top_p request) (req_context request) of
                   (Inl e, s') \<Rightarrow> (Inl (Exception e), s')
                 | (Inr result, s') \<Rightarrow>
                     (case GenerateResponse_new
                             \<lparr> arg_success = Given True,
                               arg_generated_text = Given (Some (res_generated_text result)),
                               arg_prompt = Given (Some (req_prompt request)),
                               arg_context = Given (req_context request),
                               arg_content_type = Given (req_content_type request),
                               arg_parameters = Given (Some (res_parameters result)),
                               arg_error = Omitted,
                               arg_processing_time = Given (Some (now - start_time)) \<rparr> of
                        Inl e \<Rightarrow> (Inl (Exception e), s')
                      | Inr response \<Rightarrow> (Inr response, s')))))"

text \<open>
  \<^verbatim>\<open>generate_content\<close>: the \<^verbatim>\<open>try\<close> block with its two handlers,
  \<^verbatim>\<open>except HTTPException: raise\<close> and \<^verbatim>\<open>except Exception as e\<close>. The second reads
  the clock (\<open>later\<close>), takes \<^verbatim>\<open>str(e)\<close> and builds the failure response, in a call
  that names neither \<^verbatim>\<open>generated_text\<close> nor \<^verbatim>\<open>parameters\<close>; what that call raises
  leaves the function.
\<close>

definition generate_content ::
  "real \<Rightarrow> real \<Rightarrow> real \<Rightarrow> GenerateRequest \<Rightarrow> AIService
     \<Rightarrow> (raised + GenerateResponse) \<times> AIService" where
  "generate_content start_time now later request ai_service =
     (case generate_content_try start_time now request ai_service of
        (Inl (HTTPException code detail), s') \<Rightarrow> (Inl (HTTPException code detail), s')
      | (Inl (Exception e), s') \<Rightarrow>
          (case GenerateResponse_new
                  \<lparr> arg_success = Given False,
                    arg_generated_text = Omitted,
                    arg_prompt = Given (Some (req_prompt request)),
                    arg_context = Given (req_context request),
                    arg_content_type = Given (req_content_type request),
                    arg_parameters = Omitted,
                    arg_error = Given (Some (str_of e)),
                    arg_processing_time = Given (Some (later - start_time)) \<rparr> of
             Inl e' \<Rightarrow> (Inl (Exception e'), s')
           | Inr response \<Rightarrow> (Inr response, s'))
      | (Inr response, s') \<Rightarrow> (Inr response, s'))"

text \<open>
  The route \<^verbatim>\<open>POST /generate\<close>: the framework builds the \<^verbatim>\<open>GenerateRequest\<close> from the
  body and calls \<^verbatim>\<open>generate_content\<close> only with a request that validated; otherwise
  it answers with the validation errors.
\<close>

datatype http_result =
    Unprocessable "(string \<times> string) list"
  | Raised raised
  | Returned GenerateResponse

definition post_generate ::
  "real \<Rightarrow> real \<Rightarrow> real \<Rightarrow> request_body \<Rightarrow> AIService \<Rightarrow> http_result \<times> AIService" where
  "post_generate start_time now later body ai_service =
     (case GenerateRequest_new body of
        Inl errors \<Rightarrow> (Unprocessable errors, ai_service)
      | Inr request \<Rightarrow>
         (case generate_content start_time now later request ai_service of
            (Inl r, s') \<Rightarrow> (Raised r, s')
          | (Inr response, s') \<Rightarrow> (Returned response, s')))"

subsection \<open>The life cycle of a service object\<close>

text \<open>
  The calls a holder of the object can make on it, one after the other. \<open>step\<close> runs
  one call: it gives whether the call returned (rather than raised) and the object
  afterwards. An exception leaves the object as the method left it when it raised.
\<close>

datatype op =
    Initialize hub bool
  | GenerateText string "int option" "real option" "real option" "string option"
  | Cleanup bool
  | IsReady

definition returned :: "'e + 'a \<Rightarrow> bool" where
  "returned r = (case r of Inl _ \<Rightarrow> False | Inr _ \<Rightarrow> True)"

fun step :: "AIService \<Rightarrow> op \<Rightarrow> bool \<times> AIService" where
  "step s (Initialize h cuda) = (case initialize h cuda s of (r, s') \<Rightarrow> (returned r, s'))"
| "step s (GenerateText prompt ml t p ctx) =
     (case generate_text s prompt ml t p ctx of (r, s') \<Rightarrow> (returned r, s'))"
| "step s (Cleanup cuda) = (case cleanup cuda s of (r, s') \<Rightarrow> (returned r, s'))"
| "step s IsReady = (returned (is_ready s), s)"

fun run :: "AIService \<Rightarrow> op list \<Rightarrow> AIService" where
  "run s [] = s"
| "run s (x # xs) = run (snd (step s x)) xs"

fun is_Initialize :: "op \<Rightarrow> bool" where
  "is_Initialize (Initialize _ _) = True"
| "is_Initialize _ = False"

text \<open>
  The specification's account of readiness, written from its words: false at the
  start, true from an \<^verbatim>\<open>initialize()\<close> that returned until the next \<^verbatim>\<open>cleanup()\<close>.
  \<open>b\<close> is the account so far, \<open>s\<close> the object the remaining calls run on.
\<close>

fun spec_ready :: "bool \<Rightarrow> AIService \<Rightarrow> op list \<Rightarrow> bool" where
  "spec_ready b s [] = b"
| "spec_ready b s (Initialize h cuda # xs) =
     spec_ready (b \<or> fst (step s (Initialize h cuda))) (snd (step s (Initialize h cuda))) xs"
| "spec_ready b s (Cleanup cuda # xs) = spec_ready False (snd (step s (Cleanup cuda))) xs"
| "spec_ready b s (x # xs) = spec_ready b (snd (step s x)) xs"

text \<open>
  What holds of every object reached from \<^verbatim>\<open>AIService()\<close>: attributes are removed
  only by \<^verbatim>\<open>cleanup\<close>, which shuts the pool down first, and the flag is set only with
  a pipeline in place and a pool that still runs.
\<close>

definition lifecycle_inv :: "AIService \<Rightarrow> bool" where
  "lifecycle_inv s =
     ((executor_shutdown s \<or>
         (model s \<noteq> Deleted \<and> tokenizer s \<noteq> Deleted \<and> pipeline s \<noteq> Deleted)) \<and>
      (\<not> p_ready s \<or> (\<not> executor_shutdown s \<and> (case pipeline s of Obj _ \<Rightarrow> True | _ \<Rightarrow> False))))"

subsection \<open>Concurrent generation calls\<close>

text \<open>
  Several \<^verbatim>\<open>generate_text\<close> calls are in flight at once: each submits one
  \<^verbatim>\<open>_generate_text_sync\<close> job to the pool of two workers. A job is
  \<^item> \<open>Submitted\<close>: in the pool's queue;
  \<^item> \<open>Waiting\<close>: on a worker, blocked at \<^verbatim>\<open>with self._lock\<close>;
  \<^item> \<open>Holding\<close>: inside the \<^verbatim>\<open>with\<close> block, before the pipeline is called;
  \<^item> \<open>Calling\<close>: inside \<^verbatim>\<open>self.pipeline(...)\<close>;
  \<^item> \<open>Cleaning\<close>: the pipeline returned, the output is being extracted and stripped;
  \<^item> \<open>Done\<close>: the \<^verbatim>\<open>with\<close> block was left, by \<^verbatim>\<open>return\<close> or by an exception, which
    releases the lock.
  \<open>boundary\<close> is the resource's own record of calls entering and leaving it.
\<close>

datatype job = Submitted | Waiting | Holding | Calling | Cleaning | Done

datatype mark = Enter nat | Exit nat

record pool =
  lock_held :: bool
  jobs :: "job list"
  boundary :: "mark list"

definition pool_init :: pool where
  "pool_init = \<lparr> lock_held = False, jobs = [], boundary = [] \<rparr>"

definition max_workers :: nat where
  "max_workers = 2"

definition on_worker :: "job \<Rightarrow> bool" where
  "on_worker j = (j = Waiting \<or> j = Holding \<or> j = Calling \<or> j = Cleaning)"

definition in_with_block :: "job \<Rightarrow> bool" where
  "in_with_block j = (j = Holding \<or> j = Calling \<or> j = Cleaning)"

text \<open>
  The moves of the system; the number is the job that moves.
  \<^item> \<open>Submit\<close>: \<^verbatim>\<open>loop.run_in_executor(self.executor, self._generate_text_sync, ...)\<close>
    in \<^verbatim>\<open>generate_text\<close> queues a new job;
  \<^item> \<open>Start\<close>: a free worker of \<^verbatim>\<open>ThreadPoolExecutor(max_workers=2)\<close> takes the job;
  \<^item> \<open>Acquire\<close>: \<^verbatim>\<open>with self._lock:\<close> is entered;
  \<^item> \<open>CallPipeline\<close>: the call \<^verbatim>\<open>self.pipeline(...)\<close> begins;
  \<^item> \<open>FailBeforeCall\<close>: reading \<^verbatim>\<open>self.pipeline\<close> or
    \<^verbatim>\<open>self.tokenizer.eos_token_id\<close> raises, and the exception leaves the block;
  \<^item> \<open>PipelineReturns\<close>, \<open>PipelineRaises\<close>: the call ends, with outputs or with an
    exception that leaves the block;
  \<^item> \<open>Finish\<close>: the output is extracted and stripped and the block is left, by
    \<^verbatim>\<open>return\<close> or by an exception of the extraction.
  \<open>fire\<close> is \<open>None\<close> when the move is not possible in that state: a worker must be
  free to start a job, and \<^verbatim>\<open>Lock.__enter__\<close> returns only when the lock is free,
  taking it.
\<close>

datatype move =
    Submit
  | Start nat
  | Acquire nat
  | CallPipeline nat
  | FailBeforeCall nat
  | PipelineReturns nat
  | PipelineRaises nat
  | Finish nat

definition job_at :: "pool \<Rightarrow> nat \<Rightarrow> job option" where
  "job_at p i = (if i < length (jobs p) then Some (jobs p ! i) else None)"

fun fire :: "pool \<Rightarrow> move \<Rightarrow> pool option" where
  "fire p Submit = Some (p\<lparr>jobs := jobs p @ [Submitted]\<rparr>)"
| "fire p (Start i) =
     (if job_at p i = Some Submitted \<and> length (filter on_worker (jobs p)) < max_workers
      then Some (p\<lparr>jobs := (jobs p)[i := Waiting]\<rparr>) else None)"
| "fire p (Acquire i) =
     (if job_at p i = Some Waiting \<and> \<not> lock_held p
      then Some (p\<lparr>lock_held := True, jobs := (jobs p)[i := Holding]\<rparr>) else None)"
| "fire p (CallPipeline i) =
     (if job_at p i = Some Holding
      then Some (p\<lparr>jobs := (jobs p)[i := Calling], boundary := boundary p @ [Enter i]\<rparr>)
      else None)"
| "fire p (FailBeforeCall i) =
     (if job_at p i = Some Holding
      then Some (p\<lparr>lock_held := False, jobs := (jobs p)[i := Done]\<rparr>) else None)"
| "fire p (PipelineReturns i) =
     (if job_at p i = Some Calling
      then Some (p\<lparr>jobs := (jobs p)[i := Cleaning], boundary := boundary p @ [Exit i]\<rparr>)
      else None)"
| "fire p (PipelineRaises i) =
     (if job_at p i = Some Calling
      then Some (p\<lparr>lock_held := False, jobs := (jobs p)[i := Done],
                   boundary := boundary p @ [Exit i]\<rparr>)
      else None)"
| "fire p (Finish i) =
     (if job_at p i = Some Cleaning
      then Some (p\<lparr>lock_held := False, jobs := (jobs p)[i := Done]\<rparr>) else None)"

text \<open>A schedule is a list of moves; it runs only if each move is possible in turn.\<close>

fun schedule :: "pool \<Rightarrow> move list \<Rightarrow> pool option" where
  "schedule p [] = Some p"
| "schedule p (m # ms) = (case fire p m of None \<Rightarrow> None | Some p' \<Rightarrow> schedule p' ms)"

text \<open>
  Reading the resource's record from the left: \<open>cur\<close> is the call inside the
  resource, if any. The result is \<open>None\<close> as soon as a call enters while another is
  inside, or a call leaves that is not the one inside.
\<close>

fun scan :: "nat option \<Rightarrow> mark list \<Rightarrow> nat option option" where
  "scan cur [] = Some cur"
| "scan None (Enter i # ms) = scan (Some i) ms"
| "scan (Some j) (Enter i # ms) = None"
| "scan (Some j) (Exit i # ms) = (if i = j then scan None ms else None)"
| "scan None (Exit i # ms) = None"

definition no_overlap :: "mark list \<Rightarrow> bool" where
  "no_overlap ms = (scan None ms \<noteq> None)"

text \<open>
  What holds in every state a schedule reaches: at most one job is inside the
  \<^verbatim>\<open>with\<close> block, the lock is held exactly when one is, and the resource's record reads
  without overlap up to the call that is inside now, which is the job in \<open>Calling\<close>.
\<close>

definition unique_holder :: "job list \<Rightarrow> bool" where
  "unique_holder js =
     (\<forall>a b. a < length js \<and> b < length js \<and> in_with_block (js ! a) \<and> in_with_block (js ! b)
        \<longrightarrow> a = b)"

definition some_holder :: "job list \<Rightarrow> bool" where
  "some_holder js = (\<exists>a < length js. in_with_block (js ! a))"

definition inside_agrees :: "nat option \<Rightarrow> job list \<Rightarrow> bool" where
  "inside_agrees cur js =
     (case cur of
        None \<Rightarrow> (\<forall>a < length js. js ! a \<noteq> Calling)
      | Some i \<Rightarrow> i < length js \<and> js ! i = Calling)"

definition pool_inv :: "pool \<Rightarrow> bool" where
  "pool_inv p =
     (unique_holder (jobs p) \<and> lock_held p = some_holder (jobs p) \<and>
      (\<exists>cur. scan None (boundary p) = Some cur \<and> inside_agrees cur (jobs p)))"

subsection \<open>Concrete services and requests\<close>

definition photosynthesis_output :: pipeline_output where
  "photosynthesis_output =
     [[(''generated_text'', '' Photosynthesis is how plants turn light into sugar. '')]]"

definition working_pipeline :: Pipeline where
  "working_pipeline c = Inr photosynthesis_output"

definition failing_pipeline :: Pipeline where
  "failing_pipeline c = Inl (LibraryError ''CUDA out of memory'')"

definition working_hub :: hub where
  "working_hub =
     \<lparr> tokenizer_from_pretrained = (\<lambda>n. Inr \<lparr> eos_token_id = Some 0 \<rparr>),
       model_from_pretrained = (\<lambda>n d. Inr (Model n)),
       make_pipeline = (\<lambda>m t d. Inr working_pipeline) \<rparr>"

definition out_of_memory_hub :: hub where
  "out_of_memory_hub =
     \<lparr> tokenizer_from_pretrained = (\<lambda>n. Inr \<lparr> eos_token_id = Some 0 \<rparr>),
       model_from_pretrained = (\<lambda>n d. Inl (LibraryError ''CUDA out of memory'')),
       make_pipeline = (\<lambda>m t d. Inr working_pipeline) \<rparr>"

definition ready_service :: AIService where
  "ready_service =
     \<lparr> model = Obj (Model ''ibm-granite/granite-3.3-2b-instruct''),
       tokenizer = Obj \<lparr> eos_token_id = Some 0 \<rparr>,
       pipeline = Obj working_pipeline, device = Some ''cpu'',
       executor_shutdown = False, p_ready = True, calls = [] \<rparr>"

definition faulty_service :: AIService where
  "faulty_service = ready_service\<lparr>pipeline := Obj failing_pipeline\<rparr>"

definition photosynthesis_body :: request_body where
  "photosynthesis_body =
     \<lparr> body_prompt = ''Photosynthesis'', body_content_type = Given (Some ''definition''),
       body_context = None, body_max_length = None, body_temperature = None,
       body_top_p = None \<rparr>"

definition photosynthesis_request :: GenerateRequest where
  "photosynthesis_request =
     \<lparr> req_prompt = ''Photosynthesis'', req_content_type = Some DEFINITION,
       req_context = None, req_max_length = None, req_temperature = None,
       req_top_p = None \<rparr>"

section \<open>Properties\<close>

subsection \<open>Facts about the facade\<close>

lemma or_int_zero: "or_int (Some 0) d = or_int None d"
  by (simp add: or_int_def)

lemma or_float_zero: "or_float (Some 0) d = or_float None d"
  by (simp add: or_float_def)

lemma generate_text_not_ready:
  "is_ready s = Inr False \<Longrightarrow>
   generate_text s prompt ml t p ctx = (Inl (RuntimeError ''AI service is not ready''), s)"
  by (simp add: generate_text_def)

lemma generate_text_Inr:
  assumes "generate_text s prompt ml t p ctx = (Inr r, s')"
  shows "is_ready s = Inr True"
    and "res_prompt r = prompt"
    and "res_context r = ctx"
    and "res_parameters r =
           \<lparr> p_max_length = or_int ml 512, p_temperature = or_float t 0.7,
             p_top_p = or_float p 0.9 \<rparr>"
    and "\<exists>c. calls s' = calls s @ [c] \<and> call_prompt c = prepare_prompt prompt ctx \<and>
             call_max_length c = or_int ml 512 \<and> call_temperature c = or_float t 0.7 \<and>
             call_top_p c = or_float p 0.9"
  using assms
  by (auto simp: generate_text_def generate_text_sync_def settings_def Let_def
           split: sum.splits if_splits attr.splits list.splits option.splits prod.splits)

lemma ready_service_is_ready: "is_ready ready_service = Inr True"
  by (simp add: is_ready_def ready_service_def)

lemma faulty_service_is_ready: "is_ready faulty_service = Inr True"
  by (simp add: is_ready_def ready_service_def faulty_service_def)

lemma strip_photosynthesis_output:
  "strip '' Photosynthesis is how plants turn light into sugar. '' =
     ''Photosynthesis is how plants turn light into sugar.''"
  by (simp add: strip_def isspace_def)

lemma generate_text_ready_service:
  "generate_text ready_service prompt ml t p ctx =
     (Inr \<lparr> res_generated_text = ''Photosynthesis is how plants turn light into sugar.'',
            res_prompt = prompt, res_context = ctx,
            res_parameters = \<lparr> p_max_length = or_int ml 512, p_temperature = or_float t 0.7,
                               p_top_p = or_float p 0.9 \<rparr> \<rparr>,
      ready_service\<lparr>calls :=
        [\<lparr> call_prompt = prepare_prompt prompt ctx, call_max_length = or_int ml 512,
            call_temperature = or_float t 0.7, call_top_p = or_float p 0.9,
            call_do_sample = True, call_pad_token_id = Some 0,
            call_num_return_sequences = 1, call_return_full_text = False \<rparr>]\<rparr>)"
  by (simp add: generate_text_def is_ready_def ready_service_def run_in_executor_def
        generate_text_sync_def settings_def Let_def working_pipeline_def
        photosynthesis_output_def strip_photosynthesis_output)

lemma generate_text_faulty_service:
  "generate_text faulty_service prompt ml t p ctx =
     (Inl (LibraryError ''CUDA out of memory''),
      faulty_service\<lparr>calls :=
        [\<lparr> call_prompt = prepare_prompt prompt ctx, call_max_length = or_int ml 512,
            call_temperature = or_float t 0.7, call_top_p = or_float p 0.9,
            call_do_sample = True, call_pad_token_id = Some 0,
            call_num_return_sequences = 1, call_return_full_text = False \<rparr>]\<rparr>)"
  by (simp add: generate_text_def is_ready_def ready_service_def faulty_service_def
        run_in_executor_def generate_text_sync_def settings_def Let_def failing_pipeline_def)

subsection \<open>Falsy parameters\<close>

text \<open>
  Claim C10. A direct call of \<^verbatim>\<open>generate_text\<close> with \<^verbatim>\<open>max_length=0\<close>,
  \<^verbatim>\<open>temperature=0.0\<close> or \<^verbatim>\<open>top_p=0.0\<close> behaves exactly as the call without that
  argument, and when all three are zero the result echoes 512, 0.7 and 0.9, which are
  also the values of the one call made to the pipeline.
\<close>

theorem falsy_parameters_defaulted:
  "generate_text s prompt (Some 0) t p ctx = generate_text s prompt None t p ctx \<and>
   generate_text s prompt ml (Some 0) p ctx = generate_text s prompt ml None p ctx \<and>
   generate_text s prompt ml t (Some 0) ctx = generate_text s prompt ml t None ctx \<and>
   (generate_text s prompt (Some 0) (Some 0) (Some 0) ctx = (Inr r, s') \<longrightarrow>
      res_parameters r = \<lparr> p_max_length = 512, p_temperature = 0.7, p_top_p = 0.9 \<rparr> \<and>
      (\<exists>c. calls s' = calls s @ [c] \<and> call_max_length c = 512 \<and>
           call_temperature c = 0.7 \<and> call_top_p c = 0.9))"
proof -
  have a: "generate_text s prompt (Some 0) t p ctx = generate_text s prompt None t p ctx"
    unfolding generate_text_def or_int_zero by (rule refl)
  have b: "generate_text s prompt ml (Some 0) p ctx = generate_text s prompt ml None p ctx"
    unfolding generate_text_def or_float_zero by (rule refl)
  have c: "generate_text s prompt ml t (Some 0) ctx = generate_text s prompt ml t None ctx"
    unfolding generate_text_def or_float_zero by (rule refl)
  have d: "res_parameters r = \<lparr> p_max_length = 512, p_temperature = 0.7, p_top_p = 0.9 \<rparr> \<and>
      (\<exists>c. calls s' = calls s @ [c] \<and> call_max_length c = 512 \<and>
           call_temperature c = 0.7 \<and> call_top_p c = 0.9)"
    if h: "generate_text s prompt (Some 0) (Some 0) (Some 0) ctx = (Inr r, s')"
    using generate_text_Inr(4,5)[OF h] by (auto simp: or_int_def or_float_def)
  show ?thesis using a b c d by blast
qed

theorem falsy_parameters_defaulted_witness:
  "\<exists>r s'. generate_text ready_service ''Photosynthesis'' (Some 0) (Some 0) (Some 0) None = (Inr r, s') \<and>
     res_parameters r = \<lparr> p_max_length = 512, p_temperature = 0.7, p_top_p = 0.9 \<rparr> \<and>
     (\<exists>c. calls s' = calls ready_service @ [c] \<and> call_max_length c = 512 \<and>
           call_temperature c = 0.7 \<and> call_top_p c = 0.9)"
proof -
  obtain r s' where h:
    "generate_text ready_service ''Photosynthesis'' (Some 0) (Some 0) (Some 0) None = (Inr r, s')"
    using generate_text_ready_service by blast
  from falsy_parameters_defaulted[where s = ready_service and prompt = "''Photosynthesis''"
      and ctx = None and r = r] h
  show ?thesis by blast
qed

subsection \<open>Facts about validation\<close>

lemma GenerateRequest_new_Inr:
  "GenerateRequest_new b = Inr req \<longleftrightarrow>
     (\<exists>p ct cx ml t tp.
        prompt_field (body_prompt b) = Inr p \<and>
        content_type_field (body_content_type b) = Inr ct \<and>
        context_field (body_context b) = Inr cx \<and>
        max_length_field (body_max_length b) = Inr ml \<and>
        temperature_field (body_temperature b) = Inr t \<and>
        top_p_field (body_top_p b) = Inr tp \<and>
        req = \<lparr> req_prompt = p, req_content_type = ct, req_context = cx,
                req_max_length = ml, req_temperature = t, req_top_p = tp \<rparr>)"
  by (auto simp: GenerateRequest_new_def field_errors_def split: sum.splits)

lemma prompt_field_Inl: "strip v = [] \<Longrightarrow> \<exists>m. prompt_field v = Inl m"
  by (simp add: prompt_field_def validate_prompt_def)

lemma GenerateRequest_new_prompt_rejected:
  "prompt_field (body_prompt b) = Inl m \<Longrightarrow> \<exists>errors. GenerateRequest_new b = Inl errors"
  by (cases "GenerateRequest_new b") (auto simp: GenerateRequest_new_Inr)

lemma max_length_field_Inr:
  "max_length_field v = Inr ml \<Longrightarrow> ml = v \<and> (\<forall>n. v = Some n \<longrightarrow> 50 \<le> n \<and> n \<le> 1000)"
  by (auto simp: max_length_field_def split: option.splits if_splits)

lemma temperature_field_Inr:
  "temperature_field v = Inr t \<Longrightarrow> t = v \<and> (\<forall>x. v = Some x \<longrightarrow> 0.1 \<le> x \<and> x \<le> 2.0)"
  by (auto simp: temperature_field_def split: option.splits if_splits)

lemma top_p_field_Inr:
  "top_p_field v = Inr t \<Longrightarrow> t = v \<and> (\<forall>x. v = Some x \<longrightarrow> 0.1 \<le> x \<and> x \<le> 1.0)"
  by (auto simp: top_p_field_def split: option.splits if_splits)

subsection \<open>Facts about the handler\<close>

lemma enhance_prompt_by_type_returns:
  "enhance_prompt_by_type p k =
     Inr (dict_get type_instructions k
            ''Provide a clear, detailed explanation of the following topic. Include examples and break down complex concepts into understandable parts:''
          @ nl @ nl @ p)"
  by (simp add: enhance_prompt_by_type_def dict_item_def type_instructions_def)

lemma success_response_raises:
  "GenerateResponse_new
     \<lparr> arg_success = Given a, arg_generated_text = Given g, arg_prompt = Given p,
       arg_context = Given cx, arg_content_type = Given ct, arg_parameters = Given ps,
       arg_error = Omitted, arg_processing_time = Given t \<rparr> =
   Inl (ValidationError [''error''])"
  by (simp add: GenerateResponse_new_def missing_def)

lemma failure_response_raises:
  "GenerateResponse_new
     \<lparr> arg_success = Given a, arg_generated_text = Omitted, arg_prompt = Given p,
       arg_context = Given cx, arg_content_type = Given ct, arg_parameters = Omitted,
       arg_error = Given e, arg_processing_time = Given t \<rparr> =
   Inl (ValidationError [''generated_text'', ''parameters''])"
  by (simp add: GenerateResponse_new_def missing_def)

lemma generate_content_not_ready:
  "is_ready s = Inr False \<Longrightarrow>
   generate_content start now later req s =
     (Inl (HTTPException 503 ''AI model is not ready. Please try again later.''), s)"
  by (simp add: generate_content_def generate_content_try_def)

lemma generate_content_try_cases:
  "generate_content_try start now req s =
     (Inl (HTTPException 503 ''AI model is not ready. Please try again later.''), s) \<and>
     is_ready s = Inr False \<or>
   (\<exists>e s'. generate_content_try start now req s = (Inl (Exception e), s'))"
  by (auto simp: generate_content_try_def success_response_raises
      split: sum.splits prod.splits)

text \<open>
  On a service that is ready, or whose \<^verbatim>\<open>is_ready()\<close> raises, every run of the handler
  ends in the \<^verbatim>\<open>ValidationError\<close> of the failure response: when \<^verbatim>\<open>generate_text\<close>
  returned, the success response failed to build first.
\<close>

lemma generate_content_raises:
  assumes "is_ready s \<noteq> Inr False"
  shows "\<exists>s'. generate_content start now later req s =
           (Inl (Exception (ValidationError [''generated_text'', ''parameters''])), s')"
proof -
  from generate_content_try_cases[of start now req s] assms
  obtain e s' where "generate_content_try start now req s = (Inl (Exception e), s')"
    by blast
  then show ?thesis by (simp add: generate_content_def failure_response_raises)
qed

lemma is_ready_AIService_init: "is_ready AIService_init = Inr False"
  by (simp add: is_ready_def AIService_init_def)

subsection \<open>Calls on a service that is not ready\<close>

text \<open>
  Claim C1. When \<^verbatim>\<open>is_ready()\<close> is false, \<^verbatim>\<open>generate_text\<close> raises
  \<^verbatim>\<open>RuntimeError("AI service is not ready")\<close> and the route raises the 503
  \<^verbatim>\<open>HTTPException\<close>; both leave the service object as it was, so the pipeline was not
  called, and neither returns a result.
\<close>

theorem not_ready_fails_fast:
  assumes "is_ready s = Inr False"
  shows "generate_text s prompt ml t p ctx = (Inl (RuntimeError ''AI service is not ready''), s) \<and>
         generate_content start now later req s =
           (Inl (HTTPException 503 ''AI model is not ready. Please try again later.''), s)"
  using assms by (simp add: generate_text_not_ready generate_content_not_ready)

theorem not_ready_fails_fast_witness:
  "is_ready AIService_init = Inr False \<and>
   generate_text AIService_init ''Photosynthesis'' None None None None =
     (Inl (RuntimeError ''AI service is not ready''), AIService_init) \<and>
   generate_content 0 1 2 photosynthesis_request AIService_init =
     (Inl (HTTPException 503 ''AI model is not ready. Please try again later.''), AIService_init)"
  using not_ready_fails_fast[OF is_ready_AIService_init] is_ready_AIService_init by simp

subsection \<open>A failure during generation\<close>

text \<open>
  Claim C5, which the code does not meet. The request \<^verbatim>\<open>Photosynthesis\<close> /
  \<^verbatim>\<open>definition\<close> validates; on a ready service whose pipeline raises, the handler
  catches the exception and calls \<^verbatim>\<open>GenerateResponse(success=False, ...)\<close> without
  \<^verbatim>\<open>generated_text\<close> and \<^verbatim>\<open>parameters\<close>, which are required: the \<^verbatim>\<open>ValidationError\<close>
  of that call leaves \<^verbatim>\<open>generate_content\<close>, and no response with \<^verbatim>\<open>success=False\<close> is
  returned.
\<close>

theorem generation_failure_escapes_handler:
  "GenerateRequest_new photosynthesis_body = Inr photosynthesis_request \<and>
   is_ready faulty_service = Inr True \<and>
   fst (generate_content 0 1 2 photosynthesis_request faulty_service) =
     Inl (Exception (ValidationError [''generated_text'', ''parameters''])) \<and>
   fst (post_generate 0 1 2 photosynthesis_body faulty_service) =
     Raised (Exception (ValidationError [''generated_text'', ''parameters'']))"
proof -
  have v: "GenerateRequest_new photosynthesis_body = Inr photosynthesis_request"
    by (simp add: GenerateRequest_new_def photosynthesis_body_def photosynthesis_request_def
        prompt_field_def validate_prompt_def strip_def isspace_def content_type_field_def
        ContentType_of_value_def ContentType_members_def context_field_def max_length_field_def
        temperature_field_def top_p_field_def)
  have r: "is_ready faulty_service \<noteq> Inr False"
    by (simp add: faulty_service_is_ready)
  from generate_content_raises[OF r, of 0 1 2 photosynthesis_request]
  obtain s' where g: "generate_content 0 1 2 photosynthesis_request faulty_service =
      (Inl (Exception (ValidationError [''generated_text'', ''parameters''])), s')"
    by blast
  then have p: "fst (post_generate 0 1 2 photosynthesis_body faulty_service) =
      Raised (Exception (ValidationError [''generated_text'', ''parameters'']))"
    by (simp add: post_generate_def v)
  from v faulty_service_is_ready g p show ?thesis by simp
qed

subsection \<open>The echo of the request\<close>

text \<open>
  Claim C6, which the code does not meet. For the request \<^verbatim>\<open>Photosynthesis\<close> /
  \<^verbatim>\<open>definition\<close> on a ready service with a working pipeline, \<^verbatim>\<open>generate_text\<close>
  returns, the call \<^verbatim>\<open>GenerateResponse(success=True, ...)\<close> leaves out the required
  \<^verbatim>\<open>error\<close> and raises inside the \<^verbatim>\<open>try\<close>, the handler's own call leaves out
  \<^verbatim>\<open>generated_text\<close> and \<^verbatim>\<open>parameters\<close> and raises too: no response is returned, so
  neither branch echoes the prompt and the content type, although both calls pass
  them.
\<close>

theorem response_is_never_built:
  "(\<exists>r s'. generate_text ready_service
       (''Provide a clear definition and explanation of the following term or concept, including its significance and context:'' @ nl @ nl @ ''Photosynthesis'')
       None None None None = (Inr r, s')) \<and>
   fst (generate_content 0 1 2 photosynthesis_request ready_service) =
     Inl (Exception (ValidationError [''generated_text'', ''parameters''])) \<and>
   (\<forall>s. \<forall>resp. fst (generate_content 0 1 2 photosynthesis_request s) \<noteq> Inr resp)"
proof -
  have a: "\<exists>r s'. generate_text ready_service
       (''Provide a clear definition and explanation of the following term or concept, including its significance and context:'' @ nl @ nl @ ''Photosynthesis'')
       None None None None = (Inr r, s')"
    by (simp add: generate_text_ready_service)
  have r: "is_ready ready_service \<noteq> Inr False"
    by (simp add: ready_service_is_ready)
  from generate_content_raises[OF r, of 0 1 2 photosynthesis_request]
  have b: "fst (generate_content 0 1 2 photosynthesis_request ready_service) =
     Inl (Exception (ValidationError [''generated_text'', ''parameters'']))"
    by auto
  have c: "fst (generate_content 0 1 2 photosynthesis_request s) \<noteq> Inr resp" for s resp
  proof (cases "is_ready s = Inr False")
    case True
    then show ?thesis by (simp add: generate_content_not_ready)
  next
    case False
    from generate_content_raises[OF False, of 0 1 2 photosynthesis_request]
    show ?thesis by auto
  qed
  show ?thesis using a b c by blast
qed

subsection \<open>Effective parameters\<close>

text \<open>
  Claim C2. For a request that validated, whenever \<^verbatim>\<open>generate_text\<close> is called with
  the request's parameters (as the route calls it) and returns, the parameters in
  its result are the body's values where the body gives them and 512, 0.7 and 0.9
  where it does not; they lie in [50, 1000], [0.1, 2.0] and [0.1, 1.0]; and they
  are the values of the one pipeline call that was made.
\<close>

theorem effective_parameters_within_bounds:
  assumes "GenerateRequest_new body = Inr req"
    and "generate_text s prompt (req_max_length req) (req_temperature req) (req_top_p req)
           (req_context req) = (Inr r, s')"
  shows "p_max_length (res_parameters r) =
           (case body_max_length body of None \<Rightarrow> 512 | Some n \<Rightarrow> n) \<and>
         p_temperature (res_parameters r) =
           (case body_temperature body of None \<Rightarrow> 0.7 | Some x \<Rightarrow> x) \<and>
         p_top_p (res_parameters r) = (case body_top_p body of None \<Rightarrow> 0.9 | Some x \<Rightarrow> x) \<and>
         50 \<le> p_max_length (res_parameters r) \<and> p_max_length (res_parameters r) \<le> 1000 \<and>
         0.1 \<le> p_temperature (res_parameters r) \<and> p_temperature (res_parameters r) \<le> 2.0 \<and>
         0.1 \<le> p_top_p (res_parameters r) \<and> p_top_p (res_parameters r) \<le> 1.0 \<and>
         (\<exists>c. calls s' = calls s @ [c] \<and> call_max_length c = p_max_length (res_parameters r) \<and>
              call_temperature c = p_temperature (res_parameters r) \<and>
              call_top_p c = p_top_p (res_parameters r))"
proof -
  let ?ps = "res_parameters r"
  note t = assms(2)
  from assms(1) have ml: "max_length_field (body_max_length body) = Inr (req_max_length req)"
    and te: "temperature_field (body_temperature body) = Inr (req_temperature req)"
    and tp: "top_p_field (body_top_p body) = Inr (req_top_p req)"
    by (auto simp: GenerateRequest_new_Inr)
  note ml' = max_length_field_Inr[OF ml] and te' = temperature_field_Inr[OF te]
    and tp' = top_p_field_Inr[OF tp]
  have 1: "or_int (req_max_length req) 512 =
      (case body_max_length body of None \<Rightarrow> 512 | Some n \<Rightarrow> n)"
    using ml' by (cases "body_max_length body") (auto simp: or_int_def)
  have 2: "or_float (req_temperature req) 0.7 =
      (case body_temperature body of None \<Rightarrow> 0.7 | Some x \<Rightarrow> x)"
    using te' by (cases "body_temperature body") (auto simp: or_float_def)
  have 3: "or_float (req_top_p req) 0.9 =
      (case body_top_p body of None \<Rightarrow> 0.9 | Some x \<Rightarrow> x)"
    using tp' by (cases "body_top_p body") (auto simp: or_float_def)
  have a: "p_max_length ?ps = (case body_max_length body of None \<Rightarrow> 512 | Some n \<Rightarrow> n)"
    and b: "p_temperature ?ps = (case body_temperature body of None \<Rightarrow> 0.7 | Some x \<Rightarrow> x)"
    and c: "p_top_p ?ps = (case body_top_p body of None \<Rightarrow> 0.9 | Some x \<Rightarrow> x)"
    using generate_text_Inr(4)[OF t] 1 2 3 by simp_all
  have d: "50 \<le> p_max_length ?ps \<and> p_max_length ?ps \<le> 1000"
    using a ml' by (cases "body_max_length body") auto
  have e: "0.1 \<le> p_temperature ?ps \<and> p_temperature ?ps \<le> 2.0"
    using b te' by (cases "body_temperature body") auto
  have f: "0.1 \<le> p_top_p ?ps \<and> p_top_p ?ps \<le> 1.0"
    using c tp' by (cases "body_top_p body") auto
  have h: "\<exists>c. calls s' = calls s @ [c] \<and> call_max_length c = p_max_length ?ps \<and>
              call_temperature c = p_temperature ?ps \<and> call_top_p c = p_top_p ?ps"
    using generate_text_Inr(5)[OF t] generate_text_Inr(4)[OF t] by auto
  show ?thesis using a b c d e f h by blast
qed

lemma strip_Photosynthesis: "strip ''Photosynthesis'' = ''Photosynthesis''"
  by (simp add: strip_def isspace_def)

lemma GenerateRequest_new_photosynthesis:
  "GenerateRequest_new (photosynthesis_body\<lparr>body_max_length := Some 200\<rparr>) =
     Inr (photosynthesis_request\<lparr>req_max_length := Some 200\<rparr>)"
  by (simp add: GenerateRequest_new_def photosynthesis_body_def photosynthesis_request_def
      prompt_field_def validate_prompt_def strip_Photosynthesis content_type_field_def
      ContentType_of_value_def ContentType_members_def context_field_def max_length_field_def
      temperature_field_def top_p_field_def)

theorem effective_parameters_within_bounds_witness:
  "GenerateRequest_new (photosynthesis_body\<lparr>body_max_length := Some 200\<rparr>) =
     Inr (photosynthesis_request\<lparr>req_max_length := Some 200\<rparr>) \<and>
   (\<exists>r s'. generate_text ready_service ''Photosynthesis'' (Some 200) None None None = (Inr r, s') \<and>
      p_max_length (res_parameters r) = 200 \<and> p_temperature (res_parameters r) = 0.7 \<and>
      p_top_p (res_parameters r) = 0.9 \<and>
      (\<exists>c. calls s' = calls ready_service @ [c] \<and> call_max_length c = 200 \<and>
           call_temperature c = 0.7 \<and> call_top_p c = 0.9))"
proof -
  let ?req = "photosynthesis_request\<lparr>req_max_length := Some 200\<rparr>"
  have f: "req_max_length ?req = Some 200" "req_temperature ?req = None"
    "req_top_p ?req = None" "req_context ?req = None"
    by (simp_all add: photosynthesis_request_def)
  obtain r s' where g:
    "generate_text ready_service ''Photosynthesis'' (Some 200) None None None = (Inr r, s')"
    using generate_text_ready_service by blast
  then have g': "generate_text ready_service ''Photosynthesis'' (req_max_length ?req)
      (req_temperature ?req) (req_top_p ?req) (req_context ?req) = (Inr r, s')"
    by (simp only: f)
  from effective_parameters_within_bounds[OF GenerateRequest_new_photosynthesis g']
  have "p_max_length (res_parameters r) = 200 \<and> p_temperature (res_parameters r) = 0.7 \<and>
      p_top_p (res_parameters r) = 0.9 \<and>
      (\<exists>c. calls s' = calls ready_service @ [c] \<and> call_max_length c = 200 \<and>
           call_temperature c = 0.7 \<and> call_top_p c = 0.9)"
    by (auto simp: photosynthesis_body_def)
  with g GenerateRequest_new_photosynthesis show ?thesis by blast
qed

subsection \<open>Prompt enhancement\<close>

lemma dict_get_unrecognized:
  "(\<forall>c. \<not> key_eq c k) \<Longrightarrow> dict_get type_instructions k dflt = dflt"
  by (simp add: dict_get_def type_instructions_def)

text \<open>
  Claim C8. \<^verbatim>\<open>_enhance_prompt_by_type\<close> never raises. For a content type that equals
  none of the six members (\<^verbatim>\<open>None\<close>, which the request model lets through, or a
  string that is no member's value) it uses the explanation instruction; for each
  member it puts that member's instruction, a blank line and the prompt together.
\<close>

theorem unrecognized_content_type_falls_back:
  "(\<exists>text. enhance_prompt_by_type prompt k = Inr text) \<and>
   content_type_field (Given None) = Inr None \<and> key_of None = NoneKey \<and>
   ((\<forall>c. \<not> key_eq c k) \<longrightarrow>
      enhance_prompt_by_type prompt k =
        Inr (''Provide a clear, detailed explanation of the following topic. Include examples and break down complex concepts into understandable parts:'' @ nl @ nl @ prompt)) \<and>
   enhance_prompt_by_type prompt (Member EXPLANATION) =
     Inr (''Provide a clear, detailed explanation of the following topic. Include examples and break down complex concepts into understandable parts:'' @ nl @ nl @ prompt) \<and>
   enhance_prompt_by_type prompt (Member SUMMARY) =
     Inr (''Create a concise summary of the following topic, highlighting the key points and main ideas:'' @ nl @ nl @ prompt) \<and>
   enhance_prompt_by_type prompt (Member QUIZ) =
     Inr (''Generate quiz questions and answers about the following topic. Include multiple choice, true/false, and short answer questions:'' @ nl @ nl @ prompt) \<and>
   enhance_prompt_by_type prompt (Member LESSON) =
     Inr (''Create a structured lesson plan for teaching the following topic. Include objectives, activities, and assessment methods:'' @ nl @ nl @ prompt) \<and>
   enhance_prompt_by_type prompt (Member EXAMPLE) =
     Inr (''Provide practical examples and real-world applications of the following concept:'' @ nl @ nl @ prompt) \<and>
   enhance_prompt_by_type prompt (Member DEFINITION) =
     Inr (''Provide a clear definition and explanation of the following term or concept, including its significance and context:'' @ nl @ nl @ prompt)"
proof -
  have a: "\<exists>text. enhance_prompt_by_type prompt k = Inr text"
    by (simp add: enhance_prompt_by_type_returns)
  have b: "content_type_field (Given None) = Inr None" "key_of None = NoneKey"
    by (simp_all add: content_type_field_def key_of_def)
  have c: "enhance_prompt_by_type prompt k =
        Inr (''Provide a clear, detailed explanation of the following topic. Include examples and break down complex concepts into understandable parts:'' @ nl @ nl @ prompt)"
    if "\<forall>c. \<not> key_eq c k"
    using that by (simp add: enhance_prompt_by_type_returns dict_get_unrecognized)
  have d: "enhance_prompt_by_type prompt (Member EXPLANATION) =
     Inr (''Provide a clear, detailed explanation of the following topic. Include examples and break down complex concepts into understandable parts:'' @ nl @ nl @ prompt)"
    "enhance_prompt_by_type prompt (Member SUMMARY) =
     Inr (''Create a concise summary of the following topic, highlighting the key points and main ideas:'' @ nl @ nl @ prompt)"
    "enhance_prompt_by_type prompt (Member QUIZ) =
     Inr (''Generate quiz questions and answers about the following topic. Include multiple choice, true/false, and short answer questions:'' @ nl @ nl @ prompt)"
    "enhance_prompt_by_type prompt (Member LESSON) =
     Inr (''Create a structured lesson plan for teaching the following topic. Include objectives, activities, and assessment methods:'' @ nl @ nl @ prompt)"
    "enhance_prompt_by_type prompt (Member EXAMPLE) =
     Inr (''Provide practical examples and real-world applications of the following concept:'' @ nl @ nl @ prompt)"
    "enhance_prompt_by_type prompt (Member DEFINITION) =
     Inr (''Provide a clear definition and explanation of the following term or concept, including its significance and context:'' @ nl @ nl @ prompt)"
    by (simp_all add: enhance_prompt_by_type_returns dict_get_def type_instructions_def)
  show ?thesis using a b c d by blast
qed

lemma key_eq_NoneKey: "\<forall>c. \<not> key_eq c NoneKey"
  by simp

lemma key_eq_poem: "\<forall>c. \<not> key_eq c (Str ''poem'')"
proof
  fix c show "\<not> key_eq c (Str ''poem'')" by (cases c) simp_all
qed

theorem unrecognized_content_type_falls_back_witness:
  "(\<forall>c. \<not> key_eq c NoneKey) \<and> (\<forall>c. \<not> key_eq c (Str ''poem'')) \<and>
   enhance_prompt_by_type ''Photosynthesis'' NoneKey =
     Inr (''Provide a clear, detailed explanation of the following topic. Include examples and break down complex concepts into understandable parts:'' @ nl @ nl @ ''Photosynthesis'') \<and>
   enhance_prompt_by_type ''Photosynthesis'' (Str ''poem'') =
     Inr (''Provide a clear, detailed explanation of the following topic. Include examples and break down complex concepts into understandable parts:'' @ nl @ nl @ ''Photosynthesis'')"
  using unrecognized_content_type_falls_back[of "''Photosynthesis''" NoneKey]
    unrecognized_content_type_falls_back[of "''Photosynthesis''" "Str ''poem''"]
    key_eq_NoneKey key_eq_poem
  by blast

subsection \<open>Prompt validation\<close>

lemma strip_prefix: "dropWhile isspace s = strip s @ rev (takeWhile isspace (rev (dropWhile isspace s)))"
proof -
  have "rev (strip s @ rev (takeWhile isspace (rev (dropWhile isspace s)))) =
      rev (dropWhile isspace s)"
    by (simp add: strip_def)
  then have "strip s @ rev (takeWhile isspace (rev (dropWhile isspace s))) = dropWhile isspace s"
    unfolding rev_is_rev_conv .
  then show ?thesis by (rule sym)
qed

lemma strip_Nil: "strip [] = []"
  by (simp add: strip_def)

lemma strip_no_leading_space:
  assumes "strip s \<noteq> []"
  shows "\<not> isspace (hd (strip s))"
proof -
  have "hd (dropWhile isspace s) = hd (strip s)"
    using assms by (subst strip_prefix) simp
  moreover have "dropWhile isspace s \<noteq> []"
    using assms by (cases "dropWhile isspace s = []") (simp_all add: strip_def)
  ultimately show ?thesis using hd_dropWhile[of isspace s] by simp
qed

lemma strip_no_trailing_space:
  assumes "strip s \<noteq> []"
  shows "\<not> isspace (last (strip s))"
proof -
  let ?t = "rev (dropWhile isspace s)"
  have ne: "dropWhile isspace ?t \<noteq> []" using assms by (simp add: strip_def)
  have "last (strip s) = hd (dropWhile isspace ?t)"
    using ne by (simp add: strip_def last_rev)
  then show ?thesis using hd_dropWhile[OF ne] by simp
qed

lemma dropWhile_hd_id: "xs \<noteq> [] \<Longrightarrow> \<not> P (hd xs) \<Longrightarrow> dropWhile P xs = xs"
  by (cases xs) simp_all

lemma strip_idem: "strip (strip s) = strip s"
proof (cases "strip s = []")
  case True
  then show ?thesis by (simp add: strip_Nil)
next
  case False
  have 1: "dropWhile isspace (strip s) = strip s"
    using False strip_no_leading_space[OF False] by (rule dropWhile_hd_id)
  have "rev (strip s) \<noteq> []" using False by simp
  moreover have "\<not> isspace (hd (rev (strip s)))"
    using False strip_no_trailing_space[OF False] by (simp add: hd_rev)
  ultimately have 2: "dropWhile isspace (rev (strip s)) = rev (strip s)"
    by (rule dropWhile_hd_id)
  have "strip (strip s) = rev (dropWhile isspace (rev (dropWhile isspace (strip s))))"
    by (simp add: strip_def)
  also have "\<dots> = strip s" by (simp only: 1 2 rev_rev_ident)
  finally show ?thesis .
qed

lemma prompt_field_Inr:
  "prompt_field v = Inr p \<Longrightarrow> p = strip v \<and> p \<noteq> []"
  by (auto simp: prompt_field_def validate_prompt_def split: if_splits)

text \<open>
  Claim C7. A body whose prompt is empty once stripped does not validate, and the
  route answers it with the validation errors and the service object as it was:
  \<^verbatim>\<open>generate_content\<close> is not called. A request that validates holds the stripped
  prompt, which is not empty and has no whitespace at either end.
\<close>

theorem empty_prompt_rejected_at_validation:
  "(strip (body_prompt b) = [] \<longrightarrow>
      (\<exists>errors. GenerateRequest_new b = Inl errors \<and>
         (\<forall>start now later s. post_generate start now later b s = (Unprocessable errors, s)))) \<and>
   (GenerateRequest_new b = Inr req \<longrightarrow>
      req_prompt req = strip (body_prompt b) \<and> req_prompt req \<noteq> [] \<and>
      strip (req_prompt req) = req_prompt req \<and>
      \<not> isspace (hd (req_prompt req)) \<and> \<not> isspace (last (req_prompt req)))"
proof -
  have a: "\<exists>errors. GenerateRequest_new b = Inl errors \<and>
         (\<forall>start now later s. post_generate start now later b s = (Unprocessable errors, s))"
    if h: "strip (body_prompt b) = []"
  proof -
    obtain m where "prompt_field (body_prompt b) = Inl m"
      using prompt_field_Inl[OF h] by blast
    then obtain errors where e: "GenerateRequest_new b = Inl errors"
      using GenerateRequest_new_prompt_rejected by blast
    then show ?thesis by (simp add: post_generate_def)
  qed
  have c: "req_prompt req = strip (body_prompt b) \<and> req_prompt req \<noteq> [] \<and>
      strip (req_prompt req) = req_prompt req \<and>
      \<not> isspace (hd (req_prompt req)) \<and> \<not> isspace (last (req_prompt req))"
    if h: "GenerateRequest_new b = Inr req"
  proof -
    from h have "prompt_field (body_prompt b) = Inr (req_prompt req)"
      by (auto simp: GenerateRequest_new_Inr)
    from prompt_field_Inr[OF this]
    have p: "req_prompt req = strip (body_prompt b)" and ne: "strip (body_prompt b) \<noteq> []"
      by auto
    show ?thesis
      using p ne strip_idem[of "body_prompt b"] strip_no_leading_space[OF ne]
        strip_no_trailing_space[OF ne]
      by simp
  qed
  show ?thesis using a c by blast
qed

lemma strip_blank: "strip ''   '' = []"
  by (simp add: strip_def isspace_def)

lemma strip_padded_Photosynthesis: "strip ''  Photosynthesis '' = ''Photosynthesis''"
  by (simp add: strip_def isspace_def)

lemma GenerateRequest_new_padded:
  "GenerateRequest_new (photosynthesis_body\<lparr>body_prompt := ''  Photosynthesis ''\<rparr>) =
     Inr photosynthesis_request"
  by (simp add: GenerateRequest_new_def photosynthesis_body_def photosynthesis_request_def
      prompt_field_def validate_prompt_def strip_padded_Photosynthesis content_type_field_def
      ContentType_of_value_def ContentType_members_def context_field_def max_length_field_def
      temperature_field_def top_p_field_def)

theorem empty_prompt_rejected_at_validation_witness:
  "strip (body_prompt (photosynthesis_body\<lparr>body_prompt := ''   ''\<rparr>)) = [] \<and>
   (\<exists>errors. GenerateRequest_new (photosynthesis_body\<lparr>body_prompt := ''   ''\<rparr>) = Inl errors \<and>
      post_generate 0 1 2 (photosynthesis_body\<lparr>body_prompt := ''   ''\<rparr>) ready_service =
        (Unprocessable errors, ready_service)) \<and>
   GenerateRequest_new (photosynthesis_body\<lparr>body_prompt := ''  Photosynthesis ''\<rparr>) =
     Inr photosynthesis_request \<and>
   req_prompt photosynthesis_request =
     strip (body_prompt (photosynthesis_body\<lparr>body_prompt := ''  Photosynthesis ''\<rparr>)) \<and>
   req_prompt photosynthesis_request \<noteq> []"
proof -
  have e: "strip (body_prompt (photosynthesis_body\<lparr>body_prompt := ''   ''\<rparr>)) = []"
    by (simp add: strip_blank)
  from empty_prompt_rejected_at_validation[of "photosynthesis_body\<lparr>body_prompt := ''   ''\<rparr>"] e
  have 1: "\<exists>errors. GenerateRequest_new (photosynthesis_body\<lparr>body_prompt := ''   ''\<rparr>) = Inl errors \<and>
      post_generate 0 1 2 (photosynthesis_body\<lparr>body_prompt := ''   ''\<rparr>) ready_service =
        (Unprocessable errors, ready_service)"
    by blast
  from empty_prompt_rejected_at_validation[of
      "photosynthesis_body\<lparr>body_prompt := ''  Photosynthesis ''\<rparr>" photosynthesis_request]
    GenerateRequest_new_padded
  have 2: "req_prompt photosynthesis_request =
     strip (body_prompt (photosynthesis_body\<lparr>body_prompt := ''  Photosynthesis ''\<rparr>)) \<and>
   req_prompt photosynthesis_request \<noteq> []"
    by blast
  show ?thesis using e 1 2 GenerateRequest_new_padded by blast
qed

subsection \<open>Life cycle\<close>

lemma lifecycle_inv_init: "lifecycle_inv AIService_init"
  by (simp add: lifecycle_inv_def AIService_init_def)

lemma is_ready_inv: "lifecycle_inv s \<Longrightarrow> is_ready s = Inr (p_ready s)"
  by (auto simp: lifecycle_inv_def is_ready_def split: attr.splits)

lemma load_model_effect:
  assumes "load_model h s = (r, s')"
  shows "p_ready s' = p_ready s" and "executor_shutdown s' = executor_shutdown s"
    and "model s \<noteq> Deleted \<Longrightarrow> model s' \<noteq> Deleted"
    and "tokenizer s \<noteq> Deleted \<Longrightarrow> tokenizer s' \<noteq> Deleted"
    and "pipeline s \<noteq> Deleted \<Longrightarrow> pipeline s' \<noteq> Deleted"
    and "returned r \<Longrightarrow> \<exists>f. pipeline s' = Obj f"
    and "\<not> returned r \<Longrightarrow> pipeline s' = pipeline s"
  using assms
  by (auto simp: load_model_def Let_def returned_def split: sum.splits)

lemma initialize_effect:
  assumes "lifecycle_inv s" and "initialize h cuda s = (r, s')"
  shows "lifecycle_inv s' \<and> p_ready s' = (p_ready s \<or> returned r)"
proof (cases "executor_shutdown s")
  case True
  with assms have "s' = s\<lparr>device := Some (if cuda then ''cuda'' else ''cpu'')\<rparr>" "\<not> returned r"
    by (auto simp: initialize_def run_in_executor_def Let_def returned_def)
  with assms(1) True show ?thesis
    by (auto simp: lifecycle_inv_def)
next
  case False
  let ?s1 = "s\<lparr>device := Some (if cuda then ''cuda'' else ''cpu'')\<rparr>"
  obtain r2 s2 where l: "load_model h ?s1 = (r2, s2)"
    by (cases "load_model h ?s1") blast
  from assms(2) False l have r: "r = r2"
    and s': "s' = (if returned r2 then s2\<lparr>p_ready := True\<rparr> else s2)"
    by (auto simp: initialize_def run_in_executor_def Let_def returned_def split: sum.splits)
  note e = load_model_effect[OF l]
  from assms(1) False have nd: "model ?s1 \<noteq> Deleted" "tokenizer ?s1 \<noteq> Deleted"
    "pipeline ?s1 \<noteq> Deleted"
    by (auto simp: lifecycle_inv_def)
  have "lifecycle_inv s'"
  proof (cases "returned r2")
    case True
    with e(6) obtain f where "pipeline s2 = Obj f" by blast
    with True s' e(2) e(3)[OF nd(1)] e(4)[OF nd(2)] False show ?thesis
      by (simp add: lifecycle_inv_def)
  next
    case nr: False
    with s' e(1,2,7) e(3)[OF nd(1)] e(4)[OF nd(2)] e(5)[OF nd(3)] False assms(1)
    show ?thesis by (auto simp: lifecycle_inv_def)
  qed
  moreover have "p_ready s' = (p_ready s \<or> returned r)"
    using s' r e(1) by auto
  ultimately show ?thesis by blast
qed

lemma generate_text_sync_effect:
  "generate_text_sync s pr ml t p = (r, s') \<Longrightarrow> \<exists>cs. s' = s\<lparr>calls := cs\<rparr>"
  by (auto simp: generate_text_sync_def Let_def
      split: attr.splits sum.splits list.splits option.splits
      intro: exI[of _ "calls s"])

lemma generate_text_effect:
  assumes "generate_text s prompt ml t p ctx = (r, s')"
  shows "\<exists>cs. s' = s\<lparr>calls := cs\<rparr>"
proof -
  have same: "\<exists>cs. s = s\<lparr>calls := cs\<rparr>" by (rule exI[of _ "calls s"]) simp
  show ?thesis
    using assms same generate_text_sync_effect
    by (auto simp: generate_text_def Let_def split: sum.splits if_splits prod.splits)
qed

lemma lifecycle_inv_calls: "lifecycle_inv (s\<lparr>calls := cs\<rparr>) = lifecycle_inv s"
  by (simp add: lifecycle_inv_def)

lemma cleanup_effect:
  assumes "lifecycle_inv s" and "cleanup cuda s = (r, s')"
  shows "lifecycle_inv s' \<and> \<not> p_ready s'"
  using assms
  by (auto simp: cleanup_def del_if_set_def Let_def lifecycle_inv_def
      split: attr.splits sum.splits)

lemma step_effect:
  assumes "lifecycle_inv s"
  shows "lifecycle_inv (snd (step s x)) \<and>
         p_ready (snd (step s x)) =
           (case x of
              Initialize h cuda \<Rightarrow> p_ready s \<or> fst (step s x)
            | Cleanup cuda \<Rightarrow> False
            | _ \<Rightarrow> p_ready s)"
proof (cases x)
  case (Initialize h cuda)
  obtain r s' where i: "initialize h cuda s = (r, s')" by (cases "initialize h cuda s") blast
  with initialize_effect[OF assms i] Initialize show ?thesis by simp
next
  case (GenerateText prompt ml t p ctx)
  obtain r s' where g: "generate_text s prompt ml t p ctx = (r, s')"
    by (cases "generate_text s prompt ml t p ctx") blast
  from generate_text_effect[OF g] obtain cs where "s' = s\<lparr>calls := cs\<rparr>" by blast
  with g GenerateText assms show ?thesis by (simp add: lifecycle_inv_calls)
next
  case (Cleanup cuda)
  obtain r s' where c: "cleanup cuda s = (r, s')" by (cases "cleanup cuda s") blast
  with cleanup_effect[OF assms c] Cleanup show ?thesis by simp
next
  case IsReady
  with assms show ?thesis by simp
qed

lemma run_inv: "lifecycle_inv s \<Longrightarrow> lifecycle_inv (run s ops)"
  by (induction ops arbitrary: s) (simp_all add: step_effect)

lemma run_spec_ready:
  "lifecycle_inv s \<Longrightarrow> p_ready (run s ops) = spec_ready (p_ready s) s ops"
proof (induction ops arbitrary: s)
  case Nil
  then show ?case by simp
next
  case (Cons x xs)
  note e = step_effect[OF Cons.prems, of x]
  from Cons.IH[of "snd (step s x)"] e
  have "p_ready (run (snd (step s x)) xs) =
      spec_ready (p_ready (snd (step s x))) (snd (step s x)) xs"
    by blast
  with e show ?case by (cases x) simp_all
qed

lemma run_stays_not_ready:
  "lifecycle_inv s \<Longrightarrow> \<not> p_ready s \<Longrightarrow> \<forall>x\<in>set ops. \<not> is_Initialize x \<Longrightarrow>
   \<not> p_ready (run s ops)"
proof (induction ops arbitrary: s)
  case Nil
  then show ?case by simp
next
  case (Cons x xs)
  note e = step_effect[OF Cons.prems(1), of x]
  from Cons.prems(3) have nx: "\<not> is_Initialize x" and nxs: "\<forall>y\<in>set xs. \<not> is_Initialize y"
    by simp_all
  from e nx Cons.prems(2) have "\<not> p_ready (snd (step s x))"
    by (cases x) simp_all
  with Cons.IH[of "snd (step s x)"] e nxs show ?case by simp
qed

lemma initialize_load_raises:
  assumes "\<not> executor_shutdown s"
    and "fst (load_model h (s\<lparr>device := Some (if cuda then ''cuda'' else ''cpu'')\<rparr>)) = Inl e"
  shows "fst (initialize h cuda s) = Inl e"
  using assms
  by (cases "load_model h (s\<lparr>device := Some (if cuda then ''cuda'' else ''cpu'')\<rparr>)")
    (simp add: initialize_def run_in_executor_def Let_def)

text \<open>
  Claim C3. \<^verbatim>\<open>is_ready()\<close> is false on a new object, and still false when
  \<^verbatim>\<open>_load_model\<close> has run but \<^verbatim>\<open>initialize\<close> has not yet set the flag. After any
  sequence of calls on a new object it never raises and agrees with the
  specification's account: true exactly from an \<^verbatim>\<open>initialize()\<close> that returned until
  the next \<^verbatim>\<open>cleanup()\<close>; in particular it is false after \<^verbatim>\<open>cleanup()\<close>. An exception
  of \<^verbatim>\<open>_load_model\<close> leaves \<^verbatim>\<open>initialize\<close> as it is, and when \<^verbatim>\<open>initialize\<close> raises on
  an object that is not ready, \<^verbatim>\<open>is_ready()\<close> stays false through every later sequence
  of calls that contains no \<^verbatim>\<open>initialize\<close>.
\<close>

theorem is_ready_lifecycle:
  "is_ready AIService_init = Inr False \<and>
   is_ready (snd (load_model h (AIService_init\<lparr>device := Some d\<rparr>))) = Inr False \<and>
   is_ready (run AIService_init ops) = Inr (spec_ready False AIService_init ops) \<and>
   is_ready (snd (cleanup cuda (run AIService_init ops))) = Inr False \<and>
   (fst (load_model h (AIService_init\<lparr>device := Some (if cuda then ''cuda'' else ''cpu'')\<rparr>)) = Inl e
      \<longrightarrow> fst (initialize h cuda AIService_init) = Inl e) \<and>
   (is_ready (run AIService_init ops) = Inr False \<and>
    fst (initialize h cuda (run AIService_init ops)) = Inl e \<longrightarrow>
      (\<forall>later. (\<forall>x\<in>set later. \<not> is_Initialize x) \<longrightarrow>
         is_ready (run (snd (initialize h cuda (run AIService_init ops))) later) = Inr False))"
proof -
  let ?s = "run AIService_init ops"
  have inv: "lifecycle_inv ?s" by (rule run_inv[OF lifecycle_inv_init])
  have a: "is_ready AIService_init = Inr False"
    by (simp add: is_ready_def AIService_init_def)
  have b: "is_ready (snd (load_model h (AIService_init\<lparr>device := Some d\<rparr>))) = Inr False"
  proof -
    obtain r s' where l: "load_model h (AIService_init\<lparr>device := Some d\<rparr>) = (r, s')"
      by (cases "load_model h (AIService_init\<lparr>device := Some d\<rparr>)") blast
    from load_model_effect(1)[OF l] have "\<not> p_ready s'" by (simp add: AIService_init_def)
    with l show ?thesis by (simp add: is_ready_def)
  qed
  have c: "is_ready ?s = Inr (spec_ready False AIService_init ops)"
    using is_ready_inv[OF inv] run_spec_ready[OF lifecycle_inv_init, of ops]
    by (simp add: AIService_init_def)
  have d: "is_ready (snd (cleanup cuda ?s)) = Inr False"
  proof -
    obtain r s' where cl: "cleanup cuda ?s = (r, s')" by (cases "cleanup cuda ?s") blast
    from cleanup_effect[OF inv cl] cl show ?thesis by (simp add: is_ready_def)
  qed
  have e: "fst (initialize h cuda AIService_init) = Inl e"
    if l: "fst (load_model h (AIService_init\<lparr>device := Some (if cuda then ''cuda'' else ''cpu'')\<rparr>)) = Inl e"
    by (rule initialize_load_raises[OF _ l]) (simp add: AIService_init_def)
  have f: "is_ready (run (snd (initialize h cuda ?s)) later) = Inr False"
    if nr: "is_ready ?s = Inr False" and ir: "fst (initialize h cuda ?s) = Inl e"
      and ni: "\<forall>x\<in>set later. \<not> is_Initialize x" for later
  proof -
    obtain r s' where i: "initialize h cuda ?s = (r, s')" by (cases "initialize h cuda ?s") blast
    from nr is_ready_inv[OF inv] have "\<not> p_ready ?s" by simp
    moreover from ir i have "\<not> returned r" by (simp add: returned_def)
    ultimately have n: "\<not> p_ready s'" and inv': "lifecycle_inv s'"
      using initialize_effect[OF inv i] by simp_all
    from run_stays_not_ready[OF inv' n ni] is_ready_inv[OF run_inv[OF inv']] i
    show ?thesis by simp
  qed
  show ?thesis using a b c d e f by blast
qed

lemma load_model_out_of_memory:
  "fst (load_model out_of_memory_hub (AIService_init\<lparr>device := Some (if False then ''cuda'' else ''cpu'')\<rparr>)) =
     Inl (LibraryError ''CUDA out of memory'')"
  by (simp add: load_model_def out_of_memory_hub_def Let_def)

lemma initialize_working_hub:
  "fst (initialize working_hub False AIService_init) = Inr ()"
  by (simp add: initialize_def load_model_def run_in_executor_def working_hub_def
      AIService_init_def Let_def)

lemma spec_ready_after_initialize:
  "spec_ready False AIService_init [Initialize working_hub False] = True"
proof -
  obtain r s' where i: "initialize working_hub False AIService_init = (r, s')"
    by (cases "initialize working_hub False AIService_init") blast
  with initialize_working_hub have "r = Inr ()" by simp
  with i show ?thesis by (simp add: returned_def)
qed

theorem is_ready_lifecycle_witness:
  "fst (initialize out_of_memory_hub False AIService_init) = Inl (LibraryError ''CUDA out of memory'') \<and>
   is_ready (run (snd (initialize out_of_memory_hub False AIService_init))
     [IsReady, GenerateText ''Photosynthesis'' None None None None, Cleanup False, IsReady]) =
     Inr False \<and>
   is_ready (run AIService_init [Initialize working_hub False]) = Inr True \<and>
   is_ready (snd (cleanup False (run AIService_init [Initialize working_hub False]))) = Inr False"
proof -
  let ?e = "LibraryError ''CUDA out of memory''"
  let ?later = "[IsReady, GenerateText ''Photosynthesis'' None None None None, Cleanup False, IsReady]"
  have R: "run AIService_init [] = AIService_init" by simp
  note T = is_ready_lifecycle[where ops = "[]" and h = out_of_memory_hub and cuda = False
      and e = ?e, unfolded R]
  note T1 = T[THEN conjunct1]
  note T5 = T[THEN conjunct2, THEN conjunct2, THEN conjunct2, THEN conjunct2, THEN conjunct1]
  note T6 = T[THEN conjunct2, THEN conjunct2, THEN conjunct2, THEN conjunct2, THEN conjunct2]
  have I: "fst (initialize out_of_memory_hub False AIService_init) = Inl ?e"
    by (rule T5[THEN mp, OF load_model_out_of_memory])
  have N: "\<forall>x\<in>set ?later. \<not> is_Initialize x" by simp
  have A: "is_ready (run (snd (initialize out_of_memory_hub False AIService_init)) ?later) = Inr False"
    by (rule T6[THEN mp, OF conjI[OF T1 I], THEN spec, THEN mp, OF N])
  note U = is_ready_lifecycle[where ops = "[Initialize working_hub False]" and cuda = False]
  note U3 = U[THEN conjunct2, THEN conjunct2, THEN conjunct1]
  note U4 = U[THEN conjunct2, THEN conjunct2, THEN conjunct2, THEN conjunct1]
  have B: "is_ready (run AIService_init [Initialize working_hub False]) = Inr True"
    by (simp only: U3 spec_ready_after_initialize)
  show ?thesis using I A B U4 by (intro conjI)
qed

subsection \<open>Cleanup of a service that never became ready\<close>

lemma cleanup_no_deleted:
  assumes "model s \<noteq> Deleted" "tokenizer s \<noteq> Deleted" "pipeline s \<noteq> Deleted"
  shows "fst (cleanup cuda s) = Inr () \<and> \<not> p_ready (snd (cleanup cuda s))"
  using assms
  by (auto simp: cleanup_def del_if_set_def Let_def split: attr.splits)

lemma cleanup_empty:
  assumes "model s = PyNone" "tokenizer s = PyNone" "pipeline s = PyNone"
  shows "cleanup cuda s = (Inr (), s\<lparr>executor_shutdown := True, p_ready := False\<rparr>)"
  using assms by (cases s) (simp add: cleanup_def del_if_set_def Let_def)

lemma initialize_new_no_deleted:
  "model (snd (initialize h cuda AIService_init)) \<noteq> Deleted \<and>
   tokenizer (snd (initialize h cuda AIService_init)) \<noteq> Deleted \<and>
   pipeline (snd (initialize h cuda AIService_init)) \<noteq> Deleted"
proof -
  obtain r s' where i: "initialize h cuda AIService_init = (r, s')"
    by (cases "initialize h cuda AIService_init") blast
  from initialize_effect[OF lifecycle_inv_init i] have inv: "lifecycle_inv s'" by simp
  have "\<not> executor_shutdown s'"
    using i
    by (auto simp: initialize_def run_in_executor_def load_model_def Let_def AIService_init_def
        split: sum.splits prod.splits)
  with inv i show ?thesis by (auto simp: lifecycle_inv_def)
qed

text \<open>
  Claim C9. On an object whose three resource attributes are still \<^verbatim>\<open>None\<close>,
  \<^verbatim>\<open>cleanup()\<close> returns without raising, changes nothing but the pool (shut down) and
  the flag (false), leaves \<^verbatim>\<open>is_ready()\<close> false, and can be called again with the same
  result. After an \<^verbatim>\<open>initialize()\<close> that raised on a new object, at whatever point of
  the loading, \<^verbatim>\<open>cleanup()\<close> returns without raising and \<^verbatim>\<open>is_ready()\<close> is false.
\<close>

theorem cleanup_without_initialize:
  "(model s = PyNone \<and> tokenizer s = PyNone \<and> pipeline s = PyNone \<longrightarrow>
      cleanup cuda s = (Inr (), s\<lparr>executor_shutdown := True, p_ready := False\<rparr>) \<and>
      is_ready (snd (cleanup cuda s)) = Inr False \<and>
      cleanup cuda' (snd (cleanup cuda s)) = (Inr (), snd (cleanup cuda s))) \<and>
   cleanup cuda AIService_init = (Inr (), AIService_init\<lparr>executor_shutdown := True\<rparr>) \<and>
   (fst (initialize h cuda AIService_init) = Inl e \<longrightarrow>
      fst (cleanup cuda' (snd (initialize h cuda AIService_init))) = Inr () \<and>
      is_ready (snd (cleanup cuda' (snd (initialize h cuda AIService_init)))) = Inr False)"
proof -
  have a: "cleanup cuda s = (Inr (), s\<lparr>executor_shutdown := True, p_ready := False\<rparr>) \<and>
      is_ready (snd (cleanup cuda s)) = Inr False \<and>
      cleanup cuda' (snd (cleanup cuda s)) = (Inr (), snd (cleanup cuda s))"
    if h: "model s = PyNone" "tokenizer s = PyNone" "pipeline s = PyNone"
  proof -
    let ?t = "s\<lparr>executor_shutdown := True, p_ready := False\<rparr>"
    have 1: "cleanup cuda s = (Inr (), ?t)" by (rule cleanup_empty[OF h])
    have 2: "is_ready ?t = Inr False" by (simp add: is_ready_def)
    have "cleanup cuda' ?t = (Inr (), ?t\<lparr>executor_shutdown := True, p_ready := False\<rparr>)"
      by (rule cleanup_empty) (simp_all add: h)
    then have 3: "cleanup cuda' ?t = (Inr (), ?t)" by simp
    show ?thesis using 1 2 3 by simp
  qed
  have b: "cleanup cuda AIService_init = (Inr (), AIService_init\<lparr>executor_shutdown := True\<rparr>)"
    by (simp add: cleanup_def del_if_set_def Let_def AIService_init_def)
  have c: "fst (cleanup cuda' (snd (initialize h cuda AIService_init))) = Inr () \<and>
      is_ready (snd (cleanup cuda' (snd (initialize h cuda AIService_init)))) = Inr False"
  proof -
    note n = initialize_new_no_deleted[of h cuda]
    from n have "fst (cleanup cuda' (snd (initialize h cuda AIService_init))) = Inr () \<and>
        \<not> p_ready (snd (cleanup cuda' (snd (initialize h cuda AIService_init))))"
      by (intro cleanup_no_deleted) simp_all
    then show ?thesis by (simp add: is_ready_def)
  qed
  have a': "model s = PyNone \<and> tokenizer s = PyNone \<and> pipeline s = PyNone \<longrightarrow>
      cleanup cuda s = (Inr (), s\<lparr>executor_shutdown := True, p_ready := False\<rparr>) \<and>
      is_ready (snd (cleanup cuda s)) = Inr False \<and>
      cleanup cuda' (snd (cleanup cuda s)) = (Inr (), snd (cleanup cuda s))"
    using a by blast
  have c': "fst (initialize h cuda AIService_init) = Inl e \<longrightarrow>
      fst (cleanup cuda' (snd (initialize h cuda AIService_init))) = Inr () \<and>
      is_ready (snd (cleanup cuda' (snd (initialize h cuda AIService_init)))) = Inr False"
    using c by (rule impI)
  show ?thesis by (rule conjI[OF a' conjI[OF b c']])
qed

theorem cleanup_without_initialize_witness:
  "fst (initialize out_of_memory_hub False AIService_init) = Inl (LibraryError ''CUDA out of memory'') \<and>
   fst (cleanup False (snd (initialize out_of_memory_hub False AIService_init))) = Inr () \<and>
   is_ready (snd (cleanup False (snd (initialize out_of_memory_hub False AIService_init)))) =
     Inr False \<and>
   cleanup False AIService_init = (Inr (), AIService_init\<lparr>executor_shutdown := True\<rparr>) \<and>
   cleanup False (snd (cleanup False AIService_init)) = (Inr (), snd (cleanup False AIService_init))"
proof -
  have i: "fst (initialize out_of_memory_hub False AIService_init) =
      Inl (LibraryError ''CUDA out of memory'')"
    by (rule initialize_load_raises[OF _ load_model_out_of_memory])
      (simp add: AIService_init_def)
  have n: "model AIService_init = PyNone \<and> tokenizer AIService_init = PyNone \<and>
      pipeline AIService_init = PyNone"
    by (simp add: AIService_init_def)
  note T = cleanup_without_initialize[where s = AIService_init and cuda = False
      and cuda' = False and h = out_of_memory_hub and e = "LibraryError ''CUDA out of memory''"]
  note T1 = T[THEN conjunct1, THEN mp, OF n]
  note T2 = T[THEN conjunct2, THEN conjunct1]
  note T3 = T[THEN conjunct2, THEN conjunct2, THEN mp, OF i]
  show ?thesis
    using i T1[THEN conjunct2, THEN conjunct2] T2 T3[THEN conjunct1] T3[THEN conjunct2]
    by (intro conjI)
qed

subsection \<open>Mutual exclusion at the generation resource\<close>

lemma scan_append:
  "scan cur (xs @ ys) = (case scan cur xs of None \<Rightarrow> None | Some c \<Rightarrow> scan c ys)"
  by (induction cur xs rule: scan.induct) simp_all

lemma unique_holderD:
  "unique_holder js \<Longrightarrow> a < length js \<Longrightarrow> b < length js \<Longrightarrow> in_with_block (js ! a) \<Longrightarrow>
   in_with_block (js ! b) \<Longrightarrow> a = b"
  unfolding unique_holder_def by blast

lemma unique_holder_move:
  assumes "unique_holder js" and "i < length js" and "in_with_block (js ! i)"
  shows "unique_holder (js[i := y])"
  unfolding unique_holder_def
proof (intro allI impI)
  fix a b
  assume h: "a < length (js[i := y]) \<and> b < length (js[i := y]) \<and>
    in_with_block (js[i := y] ! a) \<and> in_with_block (js[i := y] ! b)"
  have "a = i"
  proof (rule ccontr)
    assume "a \<noteq> i"
    with h have "in_with_block (js ! a)" "a < length js" by simp_all
    with unique_holderD[OF assms(1) _ assms(2) _ assms(3)] \<open>a \<noteq> i\<close> show False by blast
  qed
  moreover have "b = i"
  proof (rule ccontr)
    assume "b \<noteq> i"
    with h have "in_with_block (js ! b)" "b < length js" by simp_all
    with unique_holderD[OF assms(1) _ assms(2) _ assms(3)] \<open>b \<noteq> i\<close> show False by blast
  qed
  ultimately show "a = b" by simp
qed

lemma unique_holder_leave:
  assumes "unique_holder js" and "\<not> in_with_block y"
  shows "unique_holder (js[i := y])"
  unfolding unique_holder_def
proof (intro allI impI)
  fix a b
  assume h: "a < length (js[i := y]) \<and> b < length (js[i := y]) \<and>
    in_with_block (js[i := y] ! a) \<and> in_with_block (js[i := y] ! b)"
  from h assms(2) have "a \<noteq> i" "b \<noteq> i" by (auto simp: nth_list_update split: if_splits)
  with h have "a < length js" "b < length js" "in_with_block (js ! a)" "in_with_block (js ! b)"
    by simp_all
  then show "a = b" by (rule unique_holderD[OF assms(1)])
qed

lemma unique_holder_enter:
  assumes "\<not> some_holder js"
  shows "unique_holder (js[i := y])"
  unfolding unique_holder_def
proof (intro allI impI)
  fix a b
  assume h: "a < length (js[i := y]) \<and> b < length (js[i := y]) \<and>
    in_with_block (js[i := y] ! a) \<and> in_with_block (js[i := y] ! b)"
  have "a = i"
  proof (rule ccontr)
    assume "a \<noteq> i"
    with h have "in_with_block (js ! a)" "a < length js" by simp_all
    with assms show False by (auto simp: some_holder_def)
  qed
  moreover have "b = i"
  proof (rule ccontr)
    assume "b \<noteq> i"
    with h have "in_with_block (js ! b)" "b < length js" by simp_all
    with assms show False by (auto simp: some_holder_def)
  qed
  ultimately show "a = b" by simp
qed

lemma some_holder_enter: "i < length js \<Longrightarrow> in_with_block y \<Longrightarrow> some_holder (js[i := y])"
  unfolding some_holder_def by (rule exI[of _ i]) simp

lemma some_holder_leave:
  assumes "unique_holder js" and "i < length js" and "in_with_block (js ! i)"
    and "\<not> in_with_block y"
  shows "\<not> some_holder (js[i := y])"
proof
  assume "some_holder (js[i := y])"
  then obtain a where a: "a < length js" "in_with_block (js[i := y] ! a)"
    by (auto simp: some_holder_def)
  with assms(4) have ne: "a \<noteq> i" by (auto simp: nth_list_update split: if_splits)
  with a have "in_with_block (js ! a)" by simp
  from unique_holderD[OF assms(1) a(1) assms(2) this assms(3)] ne show False by simp
qed

lemma some_holder_outside:
  assumes "i < length js" and "\<not> in_with_block (js ! i)" and "\<not> in_with_block y"
  shows "some_holder (js[i := y]) = some_holder js"
proof
  assume "some_holder (js[i := y])"
  then obtain a where a: "a < length js" "in_with_block (js[i := y] ! a)"
    by (auto simp: some_holder_def)
  with assms(3) have "a \<noteq> i" by (auto simp: nth_list_update split: if_splits)
  with a show "some_holder js" by (auto simp: some_holder_def)
next
  assume "some_holder js"
  then obtain a where a: "a < length js" "in_with_block (js ! a)"
    by (auto simp: some_holder_def)
  with assms(2) have "a \<noteq> i" by auto
  with a show "some_holder (js[i := y])" by (auto simp: some_holder_def)
qed

lemma inside_agrees_outside:
  assumes "inside_agrees cur js" and "i < length js" and "js ! i \<noteq> Calling" and "y \<noteq> Calling"
  shows "inside_agrees cur (js[i := y])"
proof (cases cur)
  case None
  with assms show ?thesis by (auto simp: inside_agrees_def nth_list_update)
next
  case (Some x)
  with assms have "x \<noteq> i" by (auto simp: inside_agrees_def)
  with Some assms show ?thesis by (simp add: inside_agrees_def)
qed

lemma inside_agrees_call:
  assumes "unique_holder js" and "inside_agrees cur js" and "i < length js"
    and "js ! i = Holding"
  shows "cur = None \<and> inside_agrees (Some i) (js[i := Calling])"
proof -
  have "cur = None"
  proof (cases cur)
    case None
    then show ?thesis .
  next
    case (Some x)
    with assms(2) have x: "x < length js" "js ! x = Calling" by (simp_all add: inside_agrees_def)
    then have "in_with_block (js ! x)" by (simp add: in_with_block_def)
    moreover from assms(4) have "in_with_block (js ! i)" by (simp add: in_with_block_def)
    ultimately have "x = i" using unique_holderD[OF assms(1) x(1) assms(3)] by blast
    with x assms(4) show ?thesis by simp
  qed
  moreover from assms(3) have "inside_agrees (Some i) (js[i := Calling])"
    by (simp add: inside_agrees_def)
  ultimately show ?thesis by blast
qed

lemma inside_agrees_exit:
  assumes "unique_holder js" and "inside_agrees cur js" and "i < length js"
    and "js ! i = Calling" and "y \<noteq> Calling"
  shows "cur = Some i \<and> inside_agrees None (js[i := y])"
proof -
  have hi: "in_with_block (js ! i)" using assms(4) by (simp add: in_with_block_def)
  have "cur = Some i"
  proof (cases cur)
    case None
    with assms(2,3,4) show ?thesis by (auto simp: inside_agrees_def)
  next
    case (Some x)
    with assms(2) have x: "x < length js" "js ! x = Calling" by (simp_all add: inside_agrees_def)
    then have "in_with_block (js ! x)" by (simp add: in_with_block_def)
    with unique_holderD[OF assms(1) x(1) assms(3) _ hi] Some show ?thesis by simp
  qed
  moreover have "\<forall>a < length (js[i := y]). js[i := y] ! a \<noteq> Calling"
  proof (intro allI impI)
    fix a assume "a < length (js[i := y])"
    then have a: "a < length js" by simp
    show "js[i := y] ! a \<noteq> Calling"
    proof (cases "a = i")
      case True
      with assms(3,5) show ?thesis by simp
    next
      case False
      show ?thesis
      proof
        assume "js[i := y] ! a = Calling"
        with False have "in_with_block (js ! a)" by (simp add: in_with_block_def)
        from unique_holderD[OF assms(1) a assms(3) this hi] False show False by simp
      qed
    qed
  qed
  then have "inside_agrees None (js[i := y])" by (simp add: inside_agrees_def)
  ultimately show ?thesis by blast
qed

lemma job_atD: "job_at p i = Some x \<Longrightarrow> i < length (jobs p) \<and> jobs p ! i = x"
  by (simp add: job_at_def split: if_splits)

lemma pool_inv_init: "pool_inv pool_init"
  by (simp add: pool_inv_def pool_init_def unique_holder_def some_holder_def inside_agrees_def)

lemma pool_inv_Submit:
  assumes "pool_inv p"
  shows "pool_inv (p\<lparr>jobs := jobs p @ [Submitted]\<rparr>)"
proof -
  let ?js = "jobs p @ [Submitted]"
  have n: "\<not> in_with_block Submitted" by (simp add: in_with_block_def)
  have nth: "\<And>a. a < length ?js \<Longrightarrow> in_with_block (?js ! a) \<Longrightarrow>
      a < length (jobs p) \<and> ?js ! a = jobs p ! a"
    using n by (auto simp: nth_append split: if_splits)
  have u: "unique_holder ?js"
    unfolding unique_holder_def
  proof (intro allI impI)
    fix a b
    assume h: "a < length ?js \<and> b < length ?js \<and> in_with_block (?js ! a) \<and> in_with_block (?js ! b)"
    with nth[of a] nth[of b]
    have "a < length (jobs p)" "b < length (jobs p)" "in_with_block (jobs p ! a)"
      "in_with_block (jobs p ! b)" by auto
    with assms show "a = b" by (auto simp: pool_inv_def dest: unique_holderD)
  qed
  have s: "some_holder ?js = some_holder (jobs p)"
  proof
    assume "some_holder ?js"
    then obtain a where "a < length ?js" "in_with_block (?js ! a)"
      unfolding some_holder_def by blast
    with nth[of a] show "some_holder (jobs p)" unfolding some_holder_def by auto
  next
    assume "some_holder (jobs p)"
    then obtain a where "a < length (jobs p)" "in_with_block (jobs p ! a)"
      unfolding some_holder_def by blast
    then show "some_holder ?js"
      unfolding some_holder_def by (intro exI[of _ a]) (simp add: nth_append)
  qed
  have c: "inside_agrees cur ?js" if "inside_agrees cur (jobs p)" for cur
    using that
    by (cases cur) (auto simp: inside_agrees_def nth_append less_Suc_eq)
  from assms u s c show ?thesis by (auto simp: pool_inv_def)
qed

lemma pool_inv_outside:
  assumes "pool_inv p" and "i < length (jobs p)" and "\<not> in_with_block (jobs p ! i)"
    and "\<not> in_with_block y"
  shows "pool_inv (p\<lparr>jobs := (jobs p)[i := y]\<rparr>)"
proof -
  from assms(3,4) have nc: "jobs p ! i \<noteq> Calling" "y \<noteq> Calling"
    by (auto simp: in_with_block_def)
  from assms(1) have u: "unique_holder (jobs p)" and l: "lock_held p = some_holder (jobs p)"
    by (simp_all add: pool_inv_def)
  from assms(1) obtain cur where cur: "scan None (boundary p) = Some cur"
    "inside_agrees cur (jobs p)" by (auto simp: pool_inv_def)
  have "unique_holder ((jobs p)[i := y])" by (rule unique_holder_leave[OF u assms(4)])
  moreover have "some_holder ((jobs p)[i := y]) = some_holder (jobs p)"
    by (rule some_holder_outside[OF assms(2,3,4)])
  moreover have "inside_agrees cur ((jobs p)[i := y])"
    by (rule inside_agrees_outside[OF cur(2) assms(2) nc])
  ultimately show ?thesis using l cur(1) by (simp add: pool_inv_def)
qed

lemma pool_inv_Acquire:
  assumes "pool_inv p" and "i < length (jobs p)" and "\<not> lock_held p" and "jobs p ! i = Waiting"
  shows "pool_inv (p\<lparr>lock_held := True, jobs := (jobs p)[i := Holding]\<rparr>)"
proof -
  from assms(1,3) have ns: "\<not> some_holder (jobs p)" by (simp add: pool_inv_def)
  from assms(1) obtain cur where cur: "scan None (boundary p) = Some cur"
    "inside_agrees cur (jobs p)" by (auto simp: pool_inv_def)
  have "unique_holder ((jobs p)[i := Holding])" by (rule unique_holder_enter[OF ns])
  moreover have "some_holder ((jobs p)[i := Holding])"
    by (rule some_holder_enter[OF assms(2)]) (simp add: in_with_block_def)
  moreover have "inside_agrees cur ((jobs p)[i := Holding])"
    by (rule inside_agrees_outside[OF cur(2) assms(2)]) (simp_all add: assms(4))
  ultimately show ?thesis using cur(1) by (simp add: pool_inv_def)
qed

lemma pool_inv_CallPipeline:
  assumes "pool_inv p" and "i < length (jobs p)" and "jobs p ! i = Holding"
  shows "pool_inv (p\<lparr>jobs := (jobs p)[i := Calling], boundary := boundary p @ [Enter i]\<rparr>)"
proof -
  from assms(1) have u: "unique_holder (jobs p)" and l: "lock_held p = some_holder (jobs p)"
    by (simp_all add: pool_inv_def)
  from assms(1) obtain cur where cur: "scan None (boundary p) = Some cur"
    "inside_agrees cur (jobs p)" by (auto simp: pool_inv_def)
  have h: "in_with_block (jobs p ! i)" using assms(3) by (simp add: in_with_block_def)
  from inside_agrees_call[OF u cur(2) assms(2,3)]
  have c: "cur = None" and a: "inside_agrees (Some i) ((jobs p)[i := Calling])" by simp_all
  have "unique_holder ((jobs p)[i := Calling])" by (rule unique_holder_move[OF u assms(2) h])
  moreover have "some_holder ((jobs p)[i := Calling])"
    by (rule some_holder_enter[OF assms(2)]) (simp add: in_with_block_def)
  moreover have "some_holder (jobs p)"
    unfolding some_holder_def using assms(2) h by blast
  moreover have "scan None (boundary p @ [Enter i]) = Some (Some i)"
    using cur(1) c by (simp add: scan_append)
  ultimately show ?thesis using l a by (simp add: pool_inv_def)
qed

lemma pool_inv_release:
  assumes "pool_inv p" and "i < length (jobs p)" and "jobs p ! i = Holding \<or> jobs p ! i = Cleaning"
  shows "pool_inv (p\<lparr>lock_held := False, jobs := (jobs p)[i := Done]\<rparr>)"
proof -
  from assms(1) have u: "unique_holder (jobs p)" by (simp add: pool_inv_def)
  from assms(1) obtain cur where cur: "scan None (boundary p) = Some cur"
    "inside_agrees cur (jobs p)" by (auto simp: pool_inv_def)
  have h: "in_with_block (jobs p ! i)" using assms(3) by (auto simp: in_with_block_def)
  have nd: "\<not> in_with_block Done" by (simp add: in_with_block_def)
  have "unique_holder ((jobs p)[i := Done])" by (rule unique_holder_leave[OF u nd])
  moreover have "\<not> some_holder ((jobs p)[i := Done])"
    by (rule some_holder_leave[OF u assms(2) h nd])
  moreover have "inside_agrees cur ((jobs p)[i := Done])"
    by (rule inside_agrees_outside[OF cur(2) assms(2)]) (use assms(3) in auto)
  ultimately show ?thesis using cur(1) by (simp add: pool_inv_def)
qed

lemma pool_inv_PipelineReturns:
  assumes "pool_inv p" and "i < length (jobs p)" and "jobs p ! i = Calling"
  shows "pool_inv (p\<lparr>jobs := (jobs p)[i := Cleaning], boundary := boundary p @ [Exit i]\<rparr>)"
proof -
  from assms(1) have u: "unique_holder (jobs p)" and l: "lock_held p = some_holder (jobs p)"
    by (simp_all add: pool_inv_def)
  from assms(1) obtain cur where cur: "scan None (boundary p) = Some cur"
    "inside_agrees cur (jobs p)" by (auto simp: pool_inv_def)
  have h: "in_with_block (jobs p ! i)" using assms(3) by (simp add: in_with_block_def)
  from inside_agrees_exit[OF u cur(2) assms(2,3), of Cleaning]
  have c: "cur = Some i" and a: "inside_agrees None ((jobs p)[i := Cleaning])" by simp_all
  have "unique_holder ((jobs p)[i := Cleaning])" by (rule unique_holder_move[OF u assms(2) h])
  moreover have "some_holder ((jobs p)[i := Cleaning])"
    by (rule some_holder_enter[OF assms(2)]) (simp add: in_with_block_def)
  moreover have "some_holder (jobs p)"
    unfolding some_holder_def using assms(2) h by blast
  moreover have "scan None (boundary p @ [Exit i]) = Some None"
    using cur(1) c by (simp add: scan_append)
  ultimately show ?thesis using l a by (simp add: pool_inv_def)
qed

lemma pool_inv_PipelineRaises:
  assumes "pool_inv p" and "i < length (jobs p)" and "jobs p ! i = Calling"
  shows "pool_inv (p\<lparr>lock_held := False, jobs := (jobs p)[i := Done],
                     boundary := boundary p @ [Exit i]\<rparr>)"
proof -
  from assms(1) have u: "unique_holder (jobs p)" by (simp add: pool_inv_def)
  from assms(1) obtain cur where cur: "scan None (boundary p) = Some cur"
    "inside_agrees cur (jobs p)" by (auto simp: pool_inv_def)
  have h: "in_with_block (jobs p ! i)" using assms(3) by (simp add: in_with_block_def)
  have nd: "\<not> in_with_block Done" by (simp add: in_with_block_def)
  from inside_agrees_exit[OF u cur(2) assms(2,3), of Done]
  have c: "cur = Some i" and a: "inside_agrees None ((jobs p)[i := Done])" by simp_all
  have "unique_holder ((jobs p)[i := Done])" by (rule unique_holder_leave[OF u nd])
  moreover have "\<not> some_holder ((jobs p)[i := Done])"
    by (rule some_holder_leave[OF u assms(2) h nd])
  moreover have "scan None (boundary p @ [Exit i]) = Some None"
    using cur(1) c by (simp add: scan_append)
  ultimately show ?thesis using a by (simp add: pool_inv_def)
qed

lemma pool_inv_fire:
  assumes "pool_inv p" and "fire p m = Some p'"
  shows "pool_inv p'"
proof (cases m)
  case Submit
  with assms(2) have "p' = p\<lparr>jobs := jobs p @ [Submitted]\<rparr>" by simp
  with pool_inv_Submit[OF assms(1)] show ?thesis by simp
next
  case (Start i)
  with assms(2) have j: "job_at p i = Some Submitted" and p': "p' = p\<lparr>jobs := (jobs p)[i := Waiting]\<rparr>"
    by (simp_all split: if_splits)
  from job_atD[OF j] have "i < length (jobs p)" "\<not> in_with_block (jobs p ! i)"
    by (simp_all add: in_with_block_def)
  from pool_inv_outside[OF assms(1) this, of Waiting] p' show ?thesis
    by (simp add: in_with_block_def)
next
  case (Acquire i)
  with assms(2) have j: "job_at p i = Some Waiting" and nl: "\<not> lock_held p"
    and p': "p' = p\<lparr>lock_held := True, jobs := (jobs p)[i := Holding]\<rparr>"
    by (simp_all split: if_splits)
  from job_atD[OF j] pool_inv_Acquire[OF assms(1) _ nl] p' show ?thesis by simp
next
  case (CallPipeline i)
  with assms(2) have j: "job_at p i = Some Holding"
    and p': "p' = p\<lparr>jobs := (jobs p)[i := Calling], boundary := boundary p @ [Enter i]\<rparr>"
    by (simp_all split: if_splits)
  from job_atD[OF j] pool_inv_CallPipeline[OF assms(1)] p' show ?thesis by simp
next
  case (FailBeforeCall i)
  with assms(2) have j: "job_at p i = Some Holding"
    and p': "p' = p\<lparr>lock_held := False, jobs := (jobs p)[i := Done]\<rparr>"
    by (simp_all split: if_splits)
  from job_atD[OF j] pool_inv_release[OF assms(1), of i] p' show ?thesis by simp
next
  case (PipelineReturns i)
  with assms(2) have j: "job_at p i = Some Calling"
    and p': "p' = p\<lparr>jobs := (jobs p)[i := Cleaning], boundary := boundary p @ [Exit i]\<rparr>"
    by (simp_all split: if_splits)
  from job_atD[OF j] pool_inv_PipelineReturns[OF assms(1)] p' show ?thesis by simp
next
  case (PipelineRaises i)
  with assms(2) have j: "job_at p i = Some Calling"
    and p': "p' = p\<lparr>lock_held := False, jobs := (jobs p)[i := Done],
                     boundary := boundary p @ [Exit i]\<rparr>"
    by (simp_all split: if_splits)
  from job_atD[OF j] pool_inv_PipelineRaises[OF assms(1)] p' show ?thesis by simp
next
  case (Finish i)
  with assms(2) have j: "job_at p i = Some Cleaning"
    and p': "p' = p\<lparr>lock_held := False, jobs := (jobs p)[i := Done]\<rparr>"
    by (simp_all split: if_splits)
  from job_atD[OF j] pool_inv_release[OF assms(1), of i] p' show ?thesis by simp
qed

lemma pool_inv_schedule:
  "pool_inv p \<Longrightarrow> schedule p ms = Some p' \<Longrightarrow> pool_inv p'"
proof (induction ms arbitrary: p)
  case Nil
  then show ?case by simp
next
  case (Cons m ms)
  from Cons.prems(2) obtain q where q: "fire p m = Some q" "schedule q ms = Some p'"
    by (auto split: option.splits)
  from Cons.IH[OF pool_inv_fire[OF Cons.prems(1) q(1)] q(2)] show ?case .
qed

text \<open>
  Claim C4. Whatever the schedule of the concurrent jobs, in the state it reaches at
  most one job is inside the pipeline call, that job holds the lock, at most one
  job is inside the \<^verbatim>\<open>with\<close> block at all, and the resource's record of entries and
  exits never shows a call entering while another is inside.
\<close>

theorem generation_calls_do_not_interleave:
  assumes "schedule pool_init ms = Some p"
  shows "no_overlap (boundary p) \<and>
         (\<forall>i j. job_at p i = Some Calling \<and> job_at p j = Some Calling \<longrightarrow> i = j) \<and>
         (\<forall>i. job_at p i = Some Calling \<longrightarrow> lock_held p) \<and>
         (\<forall>i j a b. job_at p i = Some a \<and> in_with_block a \<and>
                    job_at p j = Some b \<and> in_with_block b \<longrightarrow> i = j)"
proof -
  have inv: "pool_inv p" by (rule pool_inv_schedule[OF pool_inv_init assms])
  then have u: "unique_holder (jobs p)" and l: "lock_held p = some_holder (jobs p)"
    by (simp_all add: pool_inv_def)
  from inv have 1: "no_overlap (boundary p)" by (auto simp: pool_inv_def no_overlap_def)
  have 4: "i = j" if h: "job_at p i = Some a" "in_with_block a" "job_at p j = Some b"
    "in_with_block b" for i j a b
  proof -
    from job_atD[OF h(1)] h(2) have "i < length (jobs p)" "in_with_block (jobs p ! i)"
      by simp_all
    moreover from job_atD[OF h(3)] h(4)
    have "j < length (jobs p)" "in_with_block (jobs p ! j)" by simp_all
    ultimately show ?thesis using unique_holderD[OF u] by blast
  qed
  have c: "in_with_block Calling" by (simp add: in_with_block_def)
  have 2: "i = j" if h: "job_at p i = Some Calling" "job_at p j = Some Calling" for i j
    by (rule 4[OF h(1) c h(2) c])
  have 3: "lock_held p" if h: "job_at p i = Some Calling" for i
  proof -
    from job_atD[OF h] have "i < length (jobs p)" "in_with_block (jobs p ! i)"
      by (simp_all add: in_with_block_def)
    then have "some_holder (jobs p)" unfolding some_holder_def by blast
    with l show ?thesis by simp
  qed
  show ?thesis using 1 2 3 4 by blast
qed

lemma schedule_two_jobs:
  "schedule pool_init [Submit, Submit, Start 0, Start 1, Acquire 1, CallPipeline 1] =
     Some \<lparr> lock_held = True, jobs = [Waiting, Calling], boundary = [Enter 1] \<rparr>"
  by (simp add: pool_init_def job_at_def on_worker_def max_workers_def)

lemma second_acquire_blocked:
  "schedule pool_init [Submit, Submit, Start 0, Start 1, Acquire 1, CallPipeline 1, Acquire 0] = None"
  by (simp add: pool_init_def job_at_def on_worker_def max_workers_def)

theorem generation_calls_do_not_interleave_witness:
  "schedule pool_init [Submit, Submit, Start 0, Start 1, Acquire 1, CallPipeline 1] =
     Some \<lparr> lock_held = True, jobs = [Waiting, Calling], boundary = [Enter 1] \<rparr> \<and>
   no_overlap [Enter 1] \<and>
   job_at \<lparr> lock_held = True, jobs = [Waiting, Calling], boundary = [Enter 1] \<rparr> 1 = Some Calling \<and>
   lock_held \<lparr> lock_held = True, jobs = [Waiting, Calling], boundary = [Enter 1] \<rparr>"
proof -
  let ?p = "\<lparr> lock_held = True, jobs = [Waiting, Calling], boundary = [Enter 1] \<rparr>"
  note T = generation_calls_do_not_interleave[OF schedule_two_jobs]
  have j: "job_at ?p 1 = Some Calling" by (simp add: job_at_def)
  from T[THEN conjunct1] have a: "no_overlap [Enter 1]" by simp
  from T[THEN conjunct2, THEN conjunct2, THEN conjunct1, THEN spec, THEN mp, OF j]
  have b: "lock_held ?p" .
  show ?thesis using schedule_two_jobs a j b by (intro conjI)
qed

end
